theory Spec2Isabelle
  imports Main "HOL-Library.Multiset"
begin

section \<open>Data model\<close>

text \<open>
  A zoned timestamp (\<open>Temporal.ZonedDateTime\<close>): the exact instant as nanoseconds since
  the epoch, and the IANA identifier of the zone it is displayed in.
\<close>

record zoned =
  epochNanoseconds :: int
  timeZoneId :: string

datatype provider_id = Google | Microsoft

text \<open>
  The identity of an event is what a deletion carries; a full \<open>CalendarEvent\<close>
  extends it with content. The field \<open>id\<close> of the source is \<open>evId\<close> here and
  \<open>end\<close> is \<open>endTime\<close>.
\<close>

record event_identity =
  evId :: string
  calendarId :: string
  accountId :: string
  providerId :: provider_id
  providerAccountId :: string

record calendar_event = event_identity +
  title :: string
  start :: zoned
  endTime :: zoned
  recurringEventId :: "string option"
  readOnly :: bool

datatype sync_item =
    Updated calendar_event
  | Deleted event_identity

record calendar =
  cal_id :: string
  cal_name :: string

record account =
  acct_accountId :: string
  acct_providerId :: provider_id

section \<open>Instants\<close>

text \<open>
  Modelled from the spec: \<open>toInstant\<close> is imported by the router and is not part of
  the sources at hand. The spec fixes \<open>start\<close> as a zoned timestamp and the sort key as
  its start instant converted to a reference zone; converting a zoned timestamp to
  another zone keeps its instant.
\<close>

definition toInstant :: "zoned \<Rightarrow> string \<Rightarrow> int" where
  "toInstant v timeZone = epochNanoseconds v"

text \<open>\<open>Temporal.Instant.compare\<close>: \<open>-1\<close>, \<open>0\<close> or \<open>1\<close>.\<close>

definition compare :: "int \<Rightarrow> int \<Rightarrow> int" where
  "compare i1 i2 = (if i1 < i2 then - 1 else if i2 < i1 then 1 else 0)"

section \<open>The aggregating merge of \<open>events.list\<close>\<close>

text \<open>
  \<open>Array.prototype.sort\<close> with a comparator is a stable sort: an element is moved in
  front of another only when the comparator puts it strictly before. On a consistent
  comparator the outcome is the one insertion from the right computes.
\<close>

fun insertBy :: "('a \<Rightarrow> 'a \<Rightarrow> int) \<Rightarrow> 'a \<Rightarrow> 'a list \<Rightarrow> 'a list" where
  "insertBy cmp x [] = [x]"
| "insertBy cmp x (y # ys) = (if cmp x y \<le> 0 then x # y # ys else y # insertBy cmp x ys)"

definition sortBy :: "('a \<Rightarrow> 'a \<Rightarrow> int) \<Rightarrow> 'a list \<Rightarrow> 'a list" where
  "sortBy cmp xs = foldr (insertBy cmp) xs []"

record calendar_result =
  events :: "calendar_event list"
  recurringMasterEvents :: "calendar_event list"

text \<open>What the router does with the events one calendar returned.\<close>

definition mapped :: "account \<Rightarrow> calendar \<Rightarrow> calendar_event list \<Rightarrow> calendar_event list" where
  "mapped acct cal evs =
     map (\<lambda>event. event\<lparr>calendarId := cal_id cal,
                         providerId := acct_providerId acct,
                         accountId := acct_accountId acct,
                         providerAccountId := acct_accountId acct\<rparr>) evs"

text \<open>
  \<open>results\<close> is what \<open>Promise.all\<close> resolves to: one list per provider, holding one
  result per requested calendar.
\<close>

definition allEvents :: "calendar_result list list \<Rightarrow> calendar_event list" where
  "allEvents results = concat (map events (concat results))"

definition sortKey :: "calendar_event \<Rightarrow> int" where
  "sortKey v = toInstant (start v) ''UTC''"

definition comparator :: "calendar_event \<times> int \<Rightarrow> calendar_event \<times> int \<Rightarrow> int" where
  "comparator p1 p2 = compare (snd p1) (snd p2)"

definition aggregate :: "calendar_result list list \<Rightarrow> calendar_event list" where
  "aggregate results =
     map fst (sortBy comparator (map (\<lambda>v. (v, sortKey v)) (allEvents results)))"

text \<open>\<open>R.mergeAll\<close> of the singleton objects \<open>{[e.id]: e}\<close>: a later entry wins.\<close>

definition mergedMasters :: "calendar_result list list \<Rightarrow> (string \<rightharpoonup> calendar_event)" where
  "mergedMasters results =
     map_of (rev (map (\<lambda>e. (evId e, e)) (concat (map recurringMasterEvents (concat results)))))"

section \<open>Applying a change list to a confirmed collection\<close>

text \<open>
  Modelled from the spec: the function that applies a \<open>CalendarEventSyncItem[]\<close> to the
  confirmed cache is not part of the sources at hand (the router only returns the change
  list). The spec's words: updates overwrite by id; deletions on an absent id are
  harmless. The collection is keyed by event id.
\<close>

type_synonym collection = "string \<rightharpoonup> calendar_event"

fun applyChange :: "collection \<Rightarrow> sync_item \<Rightarrow> collection" where
  "applyChange c (Updated e) = c(evId e \<mapsto> e)"
| "applyChange c (Deleted i) = c(evId i := None)"

definition applyChanges :: "sync_item list \<Rightarrow> collection \<Rightarrow> collection" where
  "applyChanges changes c = foldl applyChange c changes"

fun changeId :: "sync_item \<Rightarrow> string" where
  "changeId (Updated e) = evId e"
| "changeId (Deleted i) = evId i"

section \<open>The optimistic projection\<close>

text \<open>
  What the calendar view renders: an event with its start and end in the display zone.
\<close>

record item =
  itemStart :: zoned
  itemEnd :: zoned
  itemEvent :: calendar_event

text \<open>
  Modelled from the spec: \<open>isBefore\<close>, \<open>convertEventToItem\<close> and \<open>insertIntoSorted\<close> are
  imported by \<open>applyOptimisticActions\<close> and are not part of the sources at hand.
  \<open>isBefore\<close> compares start instants; \<open>convertEventToItem\<close> wraps the event with its
  start and end shown in the display zone; \<open>insertIntoSorted\<close> is the linear insertion
  of the spec, behind the leading run of elements the predicate accepts.
\<close>

definition isBefore :: "zoned \<Rightarrow> zoned \<Rightarrow> string \<Rightarrow> bool" where
  "isBefore a b timeZone = (toInstant a timeZone < toInstant b timeZone)"

definition convertEventToItem :: "calendar_event \<Rightarrow> string \<Rightarrow> item" where
  "convertEventToItem ev timeZone =
     \<lparr>itemStart = (start ev)\<lparr>timeZoneId := timeZone\<rparr>,
      itemEnd = (endTime ev)\<lparr>timeZoneId := timeZone\<rparr>,
      itemEvent = ev\<rparr>"

definition insertIntoSorted :: "'a list \<Rightarrow> 'a \<Rightarrow> ('a \<Rightarrow> bool) \<Rightarrow> 'a list" where
  "insertIntoSorted array x predicate = takeWhile predicate array @ x # dropWhile predicate array"

text \<open>
  \<open>OptimisticAction\<close>: the optional action id, the \<open>eventId\<close> and, except for a
  deletion, the proposed event. The store \<open>Record<string, OptimisticAction>\<close> is the
  list of its entries in the order \<open>Object.values\<close> walks them.
\<close>

datatype optimistic_action =
    Create "string option" string calendar_event
  | Update "string option" string calendar_event
  | Draft "string option" string calendar_event
  | Delete "string option" string

fun applyAction :: "string \<Rightarrow> item list \<Rightarrow> optimistic_action \<Rightarrow> item list" where
  "applyAction timeZone optimisticItems (Update _ _ ev) =
     insertIntoSorted optimisticItems (convertEventToItem ev timeZone)
       (\<lambda>a. isBefore (itemStart a) (start ev) timeZone)"
| "applyAction timeZone optimisticItems (Delete _ eventId) =
     filter (\<lambda>event. evId (itemEvent event) \<noteq> eventId) optimisticItems"
| "applyAction timeZone optimisticItems (Create _ _ ev) =
     insertIntoSorted optimisticItems (convertEventToItem ev timeZone)
       (\<lambda>a. isBefore (itemStart a) (start ev) timeZone)"
| "applyAction timeZone optimisticItems (Draft _ _ ev) =
     insertIntoSorted optimisticItems (convertEventToItem ev timeZone)
       (\<lambda>a. isBefore (itemStart a) (start ev) timeZone)"

text \<open>
  The store is a plain object, so \<open>optimisticActions[key]\<close> finds the entry stored
  under \<open>key\<close> and, where there is none, what the object inherits from
  \<open>Object.prototype\<close> under that name. The lookup is \<open>undefined\<close> only for a key that
  is neither stored nor inherited.
\<close>

definition objectPrototypeKeys :: "string list" where
  "objectPrototypeKeys =
     [''constructor'', ''__defineGetter__'', ''__defineSetter__'', ''hasOwnProperty'',
      ''__lookupGetter__'', ''__lookupSetter__'', ''isPrototypeOf'', ''propertyIsEnumerable'',
      ''toString'', ''valueOf'', ''__proto__'', ''toLocaleString'']"

definition isUndefinedAt :: "(string \<times> optimistic_action) list \<Rightarrow> string \<Rightarrow> bool" where
  "isUndefinedAt obj key = (map_of obj key = None \<and> key \<notin> set objectPrototypeKeys)"

definition applyOptimisticActions ::
  "item list \<Rightarrow> string \<Rightarrow> (string \<times> optimistic_action) list \<Rightarrow> item list" where
  "applyOptimisticActions items timeZone optimisticActions =
     foldl (applyAction timeZone)
       (filter (\<lambda>event. isUndefinedAt optimisticActions (evId (itemEvent event))) items)
       (map snd optimisticActions)"

text \<open>
  The store keeps an action under the id of the event it is about, and the event an
  action proposes has that id (\<open>eventId: event.id\<close> where the actions are built).
\<close>

fun wellKeyed :: "string \<times> optimistic_action \<Rightarrow> bool" where
  "wellKeyed (k, Create _ eventId ev) = (eventId = k \<and> evId ev = k)"
| "wellKeyed (k, Update _ eventId ev) = (eventId = k \<and> evId ev = k)"
| "wellKeyed (k, Draft _ eventId ev) = (eventId = k \<and> evId ev = k)"
| "wellKeyed (k, Delete _ eventId) = (eventId = k)"

definition itemInstant :: "string \<Rightarrow> item \<Rightarrow> int" where
  "itemInstant timeZone a = toInstant (itemStart a) timeZone"

definition withId :: "string \<Rightarrow> item list \<Rightarrow> item list" where
  "withId e xs = filter (\<lambda>a. evId (itemEvent a) = e) xs"

section \<open>The mutation hooks\<close>

text \<open>
  The query cache entry of \<open>events.list\<close> (\<open>undefined\<close> is \<open>None\<close>), and the part of
  the browser state the hooks of \<open>use-event-mutations\<close> read and write: the cache
  entry, whether a fetch is in flight, whether the entry is marked stale, the error
  toasts shown, and the optimistic action store.
\<close>

record query_data =
  dataEvents :: "calendar_event list"
  dataRecurringMasterEvents :: "string \<rightharpoonup> calendar_event"

record client =
  queryData :: "query_data option"
  fetching :: bool
  stale :: bool
  toasts :: "string list"
  optimisticActions :: "(string \<times> optimistic_action) list"

record mutation_error =
  message :: string
  code :: string

record mutation_context =
  previousEvents :: "query_data option"

text \<open>
  The query client: \<open>cancelQueries\<close> drops the fetch in flight, \<open>setQueryData\<close> stores
  what the updater returns and leaves the entry alone when that is \<open>undefined\<close>,
  \<open>invalidateQueries\<close> marks the entry stale (the refetch it triggers lands later).
\<close>

definition cancelQueries :: "client \<Rightarrow> client" where
  "cancelQueries s = s\<lparr>fetching := False\<rparr>"

definition getQueryData :: "client \<Rightarrow> query_data option" where
  "getQueryData s = queryData s"

definition setQueryData :: "(query_data option \<Rightarrow> query_data option) \<Rightarrow> client \<Rightarrow> client" where
  "setQueryData updater s =
     (case updater (queryData s) of None \<Rightarrow> s | Some d \<Rightarrow> s\<lparr>queryData := Some d\<rparr>)"

definition invalidateQueries :: "client \<Rightarrow> client" where
  "invalidateQueries s = s\<lparr>stale := True\<rparr>"

definition toastError :: "string \<Rightarrow> client \<Rightarrow> client" where
  "toastError m s = s\<lparr>toasts := toasts s @ [m]\<rparr>"

text \<open>
  \<open>useCreateEventMutation\<close>: \<open>onMutate\<close> takes the snapshot and inserts the new event
  into the cached list; \<open>onError\<close> puts a defined snapshot back and shows the error.
  An array is truthy, so \<open>prev.events || []\<close> is \<open>prev.events\<close>.
\<close>

definition createOnMutate :: "string \<Rightarrow> calendar_event \<Rightarrow> client \<Rightarrow> mutation_context \<times> client" where
  "createOnMutate defaultTimeZone newEvent s =
     (let s1 = cancelQueries s;
          previous = getQueryData s1;
          s2 = setQueryData (\<lambda>prev. case prev of
                 None \<Rightarrow> None
               | Some p \<Rightarrow> Some (p\<lparr>dataEvents :=
                   insertIntoSorted (dataEvents p) newEvent
                     (\<lambda>a. isBefore (start a) (start newEvent) defaultTimeZone)\<rparr>)) s1
      in (\<lparr>previousEvents = previous\<rparr>, s2))"

definition createOnError ::
  "mutation_error \<Rightarrow> calendar_event \<Rightarrow> mutation_context option \<Rightarrow> client \<Rightarrow> client" where
  "createOnError err newEvent ctx s =
     (let s1 = (case ctx of
                  None \<Rightarrow> s
                | Some c \<Rightarrow> (case previousEvents c of
                               None \<Rightarrow> s
                             | Some d \<Rightarrow> setQueryData (\<lambda>_. Some d) s))
      in toastError (message err) s1)"

text \<open>
  \<open>onSettled\<close> is the same in the three hooks.
\<close>

definition onSettled :: "client \<Rightarrow> client" where
  "onSettled s = invalidateQueries s"

text \<open>
  \<open>useUpdateEventMutation\<close>: the variables are the event data and an optional move
  with an optional destination.
\<close>

record destination =
  destAccountId :: string
  destCalendarId :: string

record move =
  moveDestination :: "destination option"

record update_input =
  updData :: calendar_event
  updMove :: "move option"

definition updateOnMutate :: "string \<Rightarrow> update_input \<Rightarrow> client \<Rightarrow> mutation_context \<times> client" where
  "updateOnMutate defaultTimeZone v s =
     (let s1 = cancelQueries s;
          previous = getQueryData s1;
          s2 = setQueryData (\<lambda>prev. case prev of
                 None \<Rightarrow> prev
               | Some p \<Rightarrow>
                   (let withoutEvent = filter (\<lambda>e. evId e \<noteq> evId (updData v)) (dataEvents p);
                        updatedEvent =
                          (case updMove v of
                             None \<Rightarrow> updData v
                           | Some m \<Rightarrow> (case moveDestination m of
                                None \<Rightarrow> updData v
                              | Some d \<Rightarrow> (updData v)\<lparr>accountId := destAccountId d,
                                                        calendarId := destCalendarId d\<rparr>))
                    in Some (p\<lparr>dataEvents :=
                         insertIntoSorted withoutEvent updatedEvent
                           (\<lambda>a. isBefore (start a) (start (updData v)) defaultTimeZone)\<rparr>))) s1
      in (\<lparr>previousEvents = previous\<rparr>, s2))"

definition updateOnError ::
  "mutation_error \<Rightarrow> update_input \<Rightarrow> mutation_context option \<Rightarrow> client \<Rightarrow> client" where
  "updateOnError err v ctx s =
     (let s1 = toastError (message err) s
      in case ctx of
           None \<Rightarrow> s1
         | Some c \<Rightarrow> (case previousEvents c of
                        None \<Rightarrow> s1
                      | Some d \<Rightarrow> setQueryData (\<lambda>_. Some d) s1))"

text \<open>
  \<open>useDeleteEventMutation\<close>. The test that tells an already deleted event from any
  other failure is left out of the source (\<open>/* isAlreadyDeleted */\<close>); it is the
  parameter \<open>isAlreadyDeleted\<close>.
\<close>

definition deleteOnMutate :: "string \<Rightarrow> client \<Rightarrow> mutation_context \<times> client" where
  "deleteOnMutate eventId s =
     (let s1 = cancelQueries s;
          previous = getQueryData s1;
          s2 = setQueryData (\<lambda>prev. case prev of
                 None \<Rightarrow> prev
               | Some p \<Rightarrow> Some (p\<lparr>dataEvents :=
                   filter (\<lambda>e. evId e \<noteq> eventId) (dataEvents p)\<rparr>)) s1
      in (\<lparr>previousEvents = previous\<rparr>, s2))"

definition deleteOnError ::
  "(mutation_error \<Rightarrow> bool) \<Rightarrow> mutation_error \<Rightarrow> string \<Rightarrow> mutation_context option \<Rightarrow> client \<Rightarrow> client" where
  "deleteOnError isAlreadyDeleted err eventId ctx s =
     (if isAlreadyDeleted err then s
      else (let s1 = toastError (message err) s
            in case ctx of
                 None \<Rightarrow> s1
               | Some c \<Rightarrow> (case previousEvents c of
                              None \<Rightarrow> s1
                            | Some d \<Rightarrow> setQueryData (\<lambda>_. Some d) s1)))"

text \<open>
  One run of a mutation as \<open>useMutation\<close> drives it: \<open>onMutate\<close>, then the remote
  call, whose outcome is \<open>remote\<close>; on failure \<open>onError\<close> with the context
  \<open>onMutate\<close> returned; \<open>onSettled\<close> either way.
\<close>

definition mutate ::
  "('v \<Rightarrow> client \<Rightarrow> mutation_context \<times> client) \<Rightarrow>
   (mutation_error \<Rightarrow> 'v \<Rightarrow> mutation_context option \<Rightarrow> client \<Rightarrow> client) \<Rightarrow>
   'v \<Rightarrow> mutation_error + 'r \<Rightarrow> client \<Rightarrow> (mutation_error + 'r) \<times> client" where
  "mutate onMutate onError v remote s =
     (let (ctx, s1) = onMutate v s
      in case remote of
           Inl err \<Rightarrow> (Inl err, onSettled (onError err v (Some ctx) s1))
         | Inr r \<Rightarrow> (Inr r, onSettled s1))"

text \<open>
  Modelled from the spec: \<open>mapEventsToItems\<close> is not part of the sources at hand; it
  turns each cached event into its item. \<open>displayed\<close> is what \<open>calendar-view\<close> computes:
  the optimistic projection of \<open>data?.events ?? []\<close>.
\<close>

definition mapEventsToItems :: "calendar_event list \<Rightarrow> string \<Rightarrow> item list" where
  "mapEventsToItems evs timeZone = map (\<lambda>e. convertEventToItem e timeZone) evs"

definition displayed :: "string \<Rightarrow> client \<Rightarrow> item list" where
  "displayed defaultTimeZone s =
     applyOptimisticActions
       (case queryData s of None \<Rightarrow> [] | Some d \<Rightarrow> mapEventsToItems (dataEvents d) defaultTimeZone)
       defaultTimeZone (optimisticActions s)"

section \<open>The Microsoft provider\<close>

text \<open>
  A thrown value is a plain error with a name and a message, or a \<open>ProviderError\<close>
  built from the error it wraps, the operation and the optional context: the three
  arguments \<open>withErrorHandler\<close> passes to its constructor.
\<close>

type_synonym err_context = "(string \<times> string) list"

datatype js_error =
    JsError string string
  | ProviderError js_error string "err_context option"

text \<open>
  What \<open>sync\<close> resolves to. \<open>status\<close> is optional because the object \<open>runSync\<close>
  returns has no such field.
\<close>

datatype sync_status = Incremental | Full

record sync_result =
  changes :: "sync_item list"
  syncToken :: "string option"
  status :: "sync_status option"

text \<open>
  A Graph event as the delta loop reads it: its id, the \<open>@removed\<close> marker, and the
  rest of the payload, which only \<open>parseMicrosoftEvent\<close> looks at. A delta response:
  the items (the loop guards against a null item), \<open>@odata.nextLink\<close> and
  \<open>@odata.deltaLink\<close>.
\<close>

record ms_event =
  ms_id :: "string option"
  ms_removed :: "string option"
  ms_raw :: string

record ms_response =
  ms_value :: "ms_event option list"
  nextLink :: "string option"
  deltaLink :: "string option"

text \<open>
  A Google event as \<open>runSync\<close> reads it, and one page of \<open>events.list\<close>.
\<close>

record g_event =
  g_id :: string
  g_status :: "string option"
  g_raw :: string

record g_response =
  g_items :: "g_event list option"
  nextSyncToken :: "string option"
  nextPageToken :: "string option"

text \<open>
  What the providers import or call and the sources at hand do not hold; every
  property below holds for any choice of them. \<open>calendarPath\<close>, the two event
  parsers and \<open>recurringEvents\<close> (with the outcome of the requests it makes) are
  absent functions; \<open>tokenExpired\<close> is the test the source leaves out
  (\<open>/* token expired */\<close>); the name and message of a \<open>ProviderError\<close> are set by its
  absent class; \<open>instantToString\<close> is \<open>Temporal.Instant.toString\<close>; \<open>urlParses\<close>
  says whether \<open>new URL\<close> accepts a string (it throws a \<open>TypeError\<close> otherwise).
\<close>

record externals =
  calendarPath :: "string \<Rightarrow> string"
  parseMicrosoftEvent :: "ms_event \<Rightarrow> string \<Rightarrow> calendar \<Rightarrow> calendar_event"
  parseGoogleCalendarEvent :: "g_event \<Rightarrow> string \<Rightarrow> calendar \<Rightarrow> string \<Rightarrow> calendar_event"
  recurringEvents :: "calendar \<Rightarrow> string list \<Rightarrow> string \<Rightarrow> js_error + calendar_event list"
  tokenExpired :: "js_error \<Rightarrow> bool"
  providerErrorName :: string
  providerErrorMessage :: "js_error \<Rightarrow> string \<Rightarrow> err_context option \<Rightarrow> string"
  instantToString :: "int \<Rightarrow> string"
  urlParses :: "string \<Rightarrow> bool"

fun errName :: "externals \<Rightarrow> js_error \<Rightarrow> string" where
  "errName X (JsError n m) = n"
| "errName X (ProviderError c operation ctx) = providerErrorName X"

fun errMessage :: "externals \<Rightarrow> js_error \<Rightarrow> string" where
  "errMessage X (JsError n m) = m"
| "errMessage X (ProviderError c operation ctx) = providerErrorMessage X c operation ctx"

text \<open>
  \<open>String.prototype.includes\<close>.
\<close>

fun strIncludes :: "string \<Rightarrow> string \<Rightarrow> bool" where
  "strIncludes [] sub = (sub = [])"
| "strIncludes (c # cs) sub = (take (length sub) (c # cs) = sub \<or> strIncludes cs sub)"

definition isNetworkError :: "externals \<Rightarrow> js_error \<Rightarrow> bool" where
  "isNetworkError X error =
     (strIncludes (errMessage X error) ''fetch''
      \<or> strIncludes (errMessage X error) ''network''
      \<or> strIncludes (errMessage X error) ''NetworkError''
      \<or> strIncludes (errMessage X error) ''Failed to fetch''
      \<or> strIncludes (errMessage X error) ''timed out''
      \<or> strIncludes (errMessage X error) ''timeout''
      \<or> errName X error = ''NetworkError''
      \<or> errName X error = ''TypeError'')"

text \<open>
  An optional string in a condition: \<open>undefined\<close> and the empty string are falsy.
\<close>

fun truthy :: "string option \<Rightarrow> bool" where
  "truthy None = False"
| "truthy (Some s) = (s \<noteq> [])"

text \<open>
  What a call leaves behind, in order: the Graph requests, the \<open>events.list\<close> calls of
  the Google client, and the \<open>console.error\<close> lines. A URL is a string the caller or
  the server supplied, or the delta URL \<open>sync\<close> builds from the calendar path and the
  optional window.
\<close>

datatype http_method = GET | POST | PATCH | DELETE

datatype url = Url string | DeltaUrl string "string option" "string option"

record request =
  meth :: http_method
  url :: url
  preferTimeZone :: "string option"
  orderby :: "string option"
  top :: "nat option"

record log_entry =
  logOperation :: string
  logProvider :: string
  logAccountId :: string
  logContext :: "err_context option"
  logErrorMessage :: string
  logErrorName :: string
  logErrorType :: "string option"

record list_params =
  listCalendarId :: string
  listPageToken :: "string option"
  listSyncToken :: "string option"

datatype effect = Request request | EventsList list_params | ConsoleError log_entry

text \<open>
  How a call ends: it returns, it throws, or it is still waiting because the provider
  has sent no further reply.
\<close>

datatype 'a outcome = Returns 'a | Throws js_error | Pending

text \<open>
  \<open>MicrosoftCalendarProvider.withErrorHandler\<close>. \<open>fn\<close> is the outcome and the trace of
  the wrapped body. Provider and account id go into the logged details; the error
  thrown is built from the caught error, the operation and the context.
\<close>

definition withErrorHandler ::
  "externals \<Rightarrow> string \<Rightarrow> string \<Rightarrow> 'a outcome \<times> effect list \<Rightarrow> err_context option
   \<Rightarrow> 'a outcome \<times> effect list" where
  "withErrorHandler X accId operation fn ctx =
     (case fst fn of
        Returns v \<Rightarrow> (Returns v, snd fn)
      | Pending \<Rightarrow> (Pending, snd fn)
      | Throws error \<Rightarrow>
          (Throws (ProviderError error operation ctx),
           snd fn @ [ConsoleError
             \<lparr>logOperation = operation, logProvider = ''microsoft'', logAccountId = accId,
              logContext = ctx, logErrorMessage = errMessage X error,
              logErrorName = errName X error,
              logErrorType = (if isNetworkError X error then Some ''network'' else None)\<rparr>]))"

definition MAX_EVENTS_PER_CALENDAR :: nat where
  "MAX_EVENTS_PER_CALENDAR = 250"

text \<open>
  The methods take the provider's replies in the order of the requests they make.
\<close>

definition event ::
  "externals \<Rightarrow> string \<Rightarrow> calendar \<Rightarrow> string \<Rightarrow> string \<Rightarrow> js_error + ms_event
   \<Rightarrow> calendar_event outcome \<times> effect list" where
  "event X accId cal eventId timeZone reply =
     withErrorHandler X accId ''event''
       (case reply of
          Inl e \<Rightarrow> Throws e
        | Inr ev \<Rightarrow> Returns (parseMicrosoftEvent X ev accId cal),
        [Request \<lparr>meth = GET, url = Url (calendarPath X (cal_id cal) @ ''/events/'' @ eventId),
                  preferTimeZone = Some timeZone, orderby = None, top = None\<rparr>])
       None"

definition deleteEvent ::
  "externals \<Rightarrow> string \<Rightarrow> string \<Rightarrow> string \<Rightarrow> bool \<Rightarrow> js_error + unit
   \<Rightarrow> unit outcome \<times> effect list" where
  "deleteEvent X accId calId eventId sendUpdate reply =
     withErrorHandler X accId ''deleteEvent''
       (case reply of Inl e \<Rightarrow> Throws e | Inr u \<Rightarrow> Returns (),
        [Request \<lparr>meth = DELETE, url = Url (calendarPath X calId @ ''/events/'' @ eventId),
                  preferTimeZone = None, orderby = None, top = None\<rparr>])
       None"

definition moveEvent ::
  "externals \<Rightarrow> string \<Rightarrow> calendar \<Rightarrow> calendar \<Rightarrow> string \<Rightarrow> bool \<Rightarrow> js_error + ms_event
   \<Rightarrow> calendar_event outcome \<times> effect list" where
  "moveEvent X accId sourceCalendar destinationCalendar eventId sendUpdate reply =
     withErrorHandler X accId ''moveEvent''
       (case event X accId sourceCalendar eventId ''UTC'' reply of
          (Returns ev, trace) \<Rightarrow>
            (Returns (ev\<lparr>calendarId := cal_id destinationCalendar, readOnly := readOnly ev\<rparr>), trace)
        | (Throws e, trace) \<Rightarrow> (Throws e, trace)
        | (Pending, trace) \<Rightarrow> (Pending, trace))
       None"

text \<open>
  The body of the \<open>for\<close> loop of \<open>sync\<close>: the change records one item of a page adds.
\<close>

definition deltaItem :: "externals \<Rightarrow> string \<Rightarrow> calendar \<Rightarrow> ms_event option \<Rightarrow> sync_item list" where
  "deltaItem X accId cal item =
     (case item of
        None \<Rightarrow> []
      | Some it \<Rightarrow>
          (case ms_id it of
             None \<Rightarrow> []
           | Some i \<Rightarrow>
               if i = [] then []
               else if ms_removed it \<noteq> None then
                 [Deleted \<lparr>evId = i, calendarId = cal_id cal, accountId = accId,
                           providerId = Microsoft, providerAccountId = accId\<rparr>]
               else [Updated (parseMicrosoftEvent X it accId cal)]))"

definition deltaPage :: "externals \<Rightarrow> string \<Rightarrow> calendar \<Rightarrow> ms_response \<Rightarrow> sync_item list" where
  "deltaPage X accId cal response = concat (map (deltaItem X accId cal) (ms_value response))"

text \<open>
  The request of one iteration: \<open>pageToken ?? initialSyncToken ?? baseUrl\<close>.
\<close>

definition deltaRequest :: "string \<Rightarrow> string option \<Rightarrow> string option \<Rightarrow> url \<Rightarrow> request" where
  "deltaRequest timeZone pageToken initialSyncToken baseUrl =
     \<lparr>meth = GET,
      url = (case pageToken of
               Some p \<Rightarrow> Url p
             | None \<Rightarrow> (case initialSyncToken of Some t \<Rightarrow> Url t | None \<Rightarrow> baseUrl)),
      preferTimeZone = Some timeZone, orderby = Some ''start/dateTime'',
      top = Some MAX_EVENTS_PER_CALENDAR\<rparr>"

text \<open>
  The \<open>do ... while (pageToken)\<close> loop over the replies. \<open>syncToken\<close> is assigned the
  page's \<open>@odata.deltaLink\<close> in every iteration, so the value returned is the one of
  the page the loop ends on.
\<close>

fun syncPages ::
  "externals \<Rightarrow> string \<Rightarrow> calendar \<Rightarrow> string \<Rightarrow> string option \<Rightarrow> url
   \<Rightarrow> string option \<Rightarrow> sync_item list \<Rightarrow> effect list \<Rightarrow> (js_error + ms_response) list
   \<Rightarrow> sync_result outcome \<times> effect list" where
  "syncPages X accId cal timeZone initialSyncToken baseUrl pageToken chs trace [] =
     (Pending, trace @ [Request (deltaRequest timeZone pageToken initialSyncToken baseUrl)])"
| "syncPages X accId cal timeZone initialSyncToken baseUrl pageToken chs trace (reply # replies) =
     (case reply of
        Inl e \<Rightarrow>
          (Throws e, trace @ [Request (deltaRequest timeZone pageToken initialSyncToken baseUrl)])
      | Inr response \<Rightarrow>
          if truthy (nextLink response) then
            syncPages X accId cal timeZone initialSyncToken baseUrl (nextLink response)
              (chs @ deltaPage X accId cal response)
              (trace @ [Request (deltaRequest timeZone pageToken initialSyncToken baseUrl)])
              replies
          else
            (Returns \<lparr>changes = chs @ deltaPage X accId cal response,
                      syncToken = deltaLink response,
                      status = Some Incremental\<rparr>,
             trace @ [Request (deltaRequest timeZone pageToken initialSyncToken baseUrl)]))"

definition sync ::
  "externals \<Rightarrow> string \<Rightarrow> calendar \<Rightarrow> string option \<Rightarrow> zoned option \<Rightarrow> zoned option \<Rightarrow> string
   \<Rightarrow> (js_error + ms_response) list \<Rightarrow> sync_result outcome \<times> effect list" where
  "sync X accId cal initialSyncToken timeMin timeMax timeZone replies =
     withErrorHandler X accId ''sync''
       (let startTime = map_option (\<lambda>t. instantToString X (toInstant t ''UTC'')) timeMin;
            endTime = map_option (\<lambda>t. instantToString X (toInstant t ''UTC'')) timeMax;
            path = calendarPath X (cal_id cal) @ ''/calendarView/delta''
        in if \<not> urlParses X path then (Throws (JsError ''TypeError'' ''Invalid URL''), [])
           else syncPages X accId cal timeZone initialSyncToken
                  (DeltaUrl path (if truthy startTime then startTime else None)
                                 (if truthy endTime then endTime else None))
                  None [] [] replies)
       None"

text \<open>
  The pages the loop reads from a list of replies, and whether the replies end the
  loop with a page that has no next link.
\<close>

fun visited :: "(js_error + ms_response) list \<Rightarrow> ms_response list" where
  "visited [] = []"
| "visited (Inl e # replies) = []"
| "visited (Inr response # replies) =
     response # (if truthy (nextLink response) then visited replies else [])"

fun answered :: "(js_error + ms_response) list \<Rightarrow> bool" where
  "answered [] = False"
| "answered (Inl e # replies) = False"
| "answered (Inr response # replies) =
     (if truthy (nextLink response) then answered replies else True)"

text \<open>
  The last delta link seen across a list of pages: a page that carries one replaces
  it, a page that carries none leaves it.
\<close>

definition seeToken :: "string option \<Rightarrow> ms_response \<Rightarrow> string option" where
  "seeToken tok page = (case deltaLink page of None \<Rightarrow> tok | Some d \<Rightarrow> Some d)"

definition lastSeen :: "ms_response list \<Rightarrow> string option" where
  "lastSeen pages = foldl seeToken None pages"

section \<open>The Google provider's sync\<close>

text \<open>
  Modelled from the spec: the Google provider's \<open>withErrorHandler\<close> is not part of the
  sources at hand. The spec has every provider method wrapped by a uniform handler
  that wraps a failure in a provider error and rethrows it.
\<close>

definition googleWithErrorHandler ::
  "externals \<Rightarrow> string \<Rightarrow> string \<Rightarrow> 'a outcome \<times> effect list \<Rightarrow> err_context option
   \<Rightarrow> 'a outcome \<times> effect list" where
  "googleWithErrorHandler X accId operation fn ctx =
     (case fst fn of
        Returns v \<Rightarrow> (Returns v, snd fn)
      | Pending \<Rightarrow> (Pending, snd fn)
      | Throws error \<Rightarrow> (Throws (ProviderError error operation ctx), snd fn))"

text \<open>
  \<open>runSync\<close>: the change record of one listed event, the records of one page
  (\<open>if (!items) continue\<close>), and the token bookkeeping
  \<open>if (nextSyncToken) currentSyncToken = nextSyncToken\<close>.
\<close>

definition listItem :: "externals \<Rightarrow> string \<Rightarrow> calendar \<Rightarrow> string \<Rightarrow> g_event \<Rightarrow> sync_item" where
  "listItem X accId cal timeZone ev =
     (if g_status ev = Some ''cancelled'' then
        Deleted \<lparr>evId = g_id ev, calendarId = cal_id cal, accountId = accId,
                 providerId = Google, providerAccountId = accId\<rparr>
      else Updated (parseGoogleCalendarEvent X ev accId cal timeZone))"

definition listPage :: "externals \<Rightarrow> string \<Rightarrow> calendar \<Rightarrow> string \<Rightarrow> g_response \<Rightarrow> sync_item list" where
  "listPage X accId cal timeZone response =
     (case g_items response of None \<Rightarrow> [] | Some items \<Rightarrow> map (listItem X accId cal timeZone) items)"

definition keepToken :: "string option \<Rightarrow> g_response \<Rightarrow> string option" where
  "keepToken currentSyncToken response =
     (if truthy (nextSyncToken response) then nextSyncToken response else currentSyncToken)"

text \<open>
  The page loop of \<open>runSync\<close>; it hands back the replies it has not read, which a
  second run goes on with.
\<close>

fun runPages ::
  "externals \<Rightarrow> string \<Rightarrow> calendar \<Rightarrow> string \<Rightarrow> string option \<Rightarrow> string option
   \<Rightarrow> sync_item list \<Rightarrow> effect list \<Rightarrow> (js_error + g_response) list
   \<Rightarrow> (sync_item list \<times> string option) outcome \<times> effect list \<times> (js_error + g_response) list" where
  "runPages X accId cal timeZone currentSyncToken pageToken chs trace [] =
     (Pending,
      trace @ [EventsList \<lparr>listCalendarId = cal_id cal, listPageToken = pageToken,
                            listSyncToken = currentSyncToken\<rparr>],
      [])"
| "runPages X accId cal timeZone currentSyncToken pageToken chs trace (reply # replies) =
     (case reply of
        Inl e \<Rightarrow>
          (Throws e,
           trace @ [EventsList \<lparr>listCalendarId = cal_id cal, listPageToken = pageToken,
                                 listSyncToken = currentSyncToken\<rparr>],
           replies)
      | Inr response \<Rightarrow>
          if truthy (nextPageToken response) then
            runPages X accId cal timeZone (keepToken currentSyncToken response)
              (nextPageToken response)
              (chs @ listPage X accId cal timeZone response)
              (trace @ [EventsList \<lparr>listCalendarId = cal_id cal, listPageToken = pageToken,
                                    listSyncToken = currentSyncToken\<rparr>])
              replies
          else
            (Returns (chs @ listPage X accId cal timeZone response,
                      keepToken currentSyncToken response),
             trace @ [EventsList \<lparr>listCalendarId = cal_id cal, listPageToken = pageToken,
                                   listSyncToken = currentSyncToken\<rparr>],
             replies))"

fun instanceOf :: "sync_item \<Rightarrow> string list" where
  "instanceOf (Updated e) =
     (case recurringEventId e of None \<Rightarrow> [] | Some r \<Rightarrow> if r = [] then [] else [r])"
| "instanceOf (Deleted i) = []"

definition runSync ::
  "externals \<Rightarrow> string \<Rightarrow> calendar \<Rightarrow> string \<Rightarrow> string option \<Rightarrow> (js_error + g_response) list
   \<Rightarrow> sync_result outcome \<times> effect list \<times> (js_error + g_response) list" where
  "runSync X accId cal timeZone token replies =
     (case runPages X accId cal timeZone token None [] [] replies of
        (Returns (chs, currentSyncToken), trace, rest) \<Rightarrow>
          (case recurringEvents X cal (concat (map instanceOf chs)) timeZone of
             Inl e \<Rightarrow> (Throws e, trace, rest)
           | Inr masters \<Rightarrow>
               (Returns \<lparr>changes = chs @ map Updated masters,
                         syncToken = currentSyncToken,
                         status = None\<rparr>, trace, rest))
      | (Throws e, trace, rest) \<Rightarrow> (Throws e, trace, rest)
      | (Pending, trace, rest) \<Rightarrow> (Pending, trace, rest))"

text \<open>
  \<open>GoogleCalendarProvider.sync\<close>: a failure of the first run that \<open>tokenExpired\<close>
  accepts starts one run without token, whose result gets the status \<open>full\<close>.
\<close>

definition googleSync ::
  "externals \<Rightarrow> string \<Rightarrow> calendar \<Rightarrow> string option \<Rightarrow> string \<Rightarrow> (js_error + g_response) list
   \<Rightarrow> sync_result outcome \<times> effect list" where
  "googleSync X accId cal initialSyncToken timeZone replies =
     googleWithErrorHandler X accId ''sync''
       (case runSync X accId cal timeZone initialSyncToken replies of
          (Returns r, trace, rest) \<Rightarrow> (Returns r, trace)
        | (Pending, trace, rest) \<Rightarrow> (Pending, trace)
        | (Throws error, trace, rest) \<Rightarrow>
            if tokenExpired X error then
              (case runSync X accId cal timeZone None rest of
                 (Returns r, trace2, rest2) \<Rightarrow> (Returns (r\<lparr>status := Some Full\<rparr>), trace @ trace2)
               | (Throws e2, trace2, rest2) \<Rightarrow> (Throws e2, trace @ trace2)
               | (Pending, trace2, rest2) \<Rightarrow> (Pending, trace @ trace2))
            else (Throws error, trace))
       None"

text \<open>
  The pages \<open>runPages\<close> reads, and the Graph requests in a trace.
\<close>

fun listed :: "(js_error + g_response) list \<Rightarrow> g_response list" where
  "listed [] = []"
| "listed (Inl e # replies) = []"
| "listed (Inr response # replies) =
     response # (if truthy (nextPageToken response) then listed replies else [])"

fun requests :: "effect list \<Rightarrow> request list" where
  "requests [] = []"
| "requests (Request r # es) = r # requests es"
| "requests (e # es) = requests es"

section \<open>Sample values\<close>

definition nineUTC :: zoned where
  "nineUTC = \<lparr>epochNanoseconds = 32400000000000, timeZoneId = ''UTC''\<rparr>"

definition eightUTC :: zoned where
  "eightUTC = \<lparr>epochNanoseconds = 28800000000000, timeZoneId = ''UTC''\<rparr>"

definition sampleEvent :: "string \<Rightarrow> zoned \<Rightarrow> calendar_event" where
  "sampleEvent i s =
     \<lparr>evId = i, calendarId = ''work'', accountId = ''acct-1'', providerId = Google,
      providerAccountId = ''acct-1'', title = i, start = s, endTime = s,
      recurringEventId = None, readOnly = False\<rparr>"

definition sampleResult :: "calendar_event list \<Rightarrow> calendar_result" where
  "sampleResult evs = \<lparr>events = evs, recurringMasterEvents = []\<rparr>"

definition sevenUTC :: zoned where
  "sevenUTC = \<lparr>epochNanoseconds = 25200000000000, timeZoneId = ''UTC''\<rparr>"

definition sampleItems :: "item list" where
  "sampleItems = [convertEventToItem (sampleEvent ''A'' eightUTC) ''UTC'',
                  convertEventToItem (sampleEvent ''B'' nineUTC) ''UTC'',
                  convertEventToItem (sampleEvent ''D'' nineUTC) ''UTC'']"

definition sampleActions :: "(string \<times> optimistic_action) list" where
  "sampleActions = [(''D'', Update None ''D'' (sampleEvent ''D'' sevenUTC)),
                    (''A'', Delete None ''A'')]"

definition sampleClient :: client where
  "sampleClient =
     \<lparr>queryData = Some \<lparr>dataEvents = [sampleEvent ''A'' eightUTC, sampleEvent ''B'' nineUTC],
                        dataRecurringMasterEvents = Map.empty\<rparr>,
      fetching = True, stale = False, toasts = [], optimisticActions = sampleActions\<rparr>"

definition networkDown :: mutation_error where
  "networkDown = \<lparr>message = ''Failed to fetch'', code = ''INTERNAL_SERVER_ERROR''\<rparr>"

definition alreadyGone :: mutation_error where
  "alreadyGone = \<lparr>message = ''Resource has been deleted'', code = ''410''\<rparr>"

definition isGone :: "mutation_error \<Rightarrow> bool" where
  "isGone err = (code err = ''410'')"

definition sampleExternals :: externals where
  "sampleExternals =
     \<lparr>calendarPath = (\<lambda>i. ''https://graph/me/calendars/'' @ i),
      parseMicrosoftEvent = (\<lambda>ev acc cal.
        (sampleEvent (case ms_id ev of None \<Rightarrow> [] | Some i \<Rightarrow> i) nineUTC)
          \<lparr>calendarId := cal_id cal, accountId := acc, providerId := Microsoft,
           providerAccountId := acc, title := ms_raw ev\<rparr>),
      parseGoogleCalendarEvent = (\<lambda>ev acc cal tz.
        (sampleEvent (g_id ev) nineUTC)
          \<lparr>calendarId := cal_id cal, accountId := acc, providerAccountId := acc, title := g_raw ev\<rparr>),
      recurringEvents = (\<lambda>cal ids tz. Inr []),
      tokenExpired = (\<lambda>e. case e of JsError n m \<Rightarrow> n = ''Gone'' | ProviderError c operation ctx \<Rightarrow> False),
      providerErrorName = ''ProviderError'',
      providerErrorMessage = (\<lambda>c operation ctx. operation),
      instantToString = (\<lambda>i. ''1970-01-01T00:00:00Z''),
      urlParses = (\<lambda>u. take 8 u = ''https://'')\<rparr>"

definition work :: calendar where
  "work = \<lparr>cal_id = ''work'', cal_name = ''Work''\<rparr>"

definition home :: calendar where
  "home = \<lparr>cal_id = ''home'', cal_name = ''Home''\<rparr>"

definition gone410 :: js_error where
  "gone410 = JsError ''Gone'' ''410: the sync state was not found''"

definition notFound :: js_error where
  "notFound = JsError ''NotFound'' ''404: the event does not exist''"

definition removedItem :: ms_event where
  "removedItem = \<lparr>ms_id = Some ''ev-1'', ms_removed = Some ''deleted'', ms_raw = ''gone''\<rparr>"

definition namelessItem :: ms_event where
  "namelessItem = \<lparr>ms_id = None, ms_removed = None, ms_raw = ''draft''\<rparr>"

definition plainItem :: ms_event where
  "plainItem = \<lparr>ms_id = Some ''ev-2'', ms_removed = None, ms_raw = ''Standup''\<rparr>"

definition firstPage :: ms_response where
  "firstPage = \<lparr>ms_value = [Some removedItem, Some namelessItem],
                nextLink = Some ''https://graph/next-2'', deltaLink = None\<rparr>"

definition finalPage :: ms_response where
  "finalPage = \<lparr>ms_value = [Some plainItem], nextLink = None, deltaLink = Some ''https://graph/delta-2''\<rparr>"

definition earlyTokenPage :: ms_response where
  "earlyTokenPage = \<lparr>ms_value = [], nextLink = Some ''https://graph/next-2'',
                     deltaLink = Some ''https://graph/delta-1''\<rparr>"

definition silentPage :: ms_response where
  "silentPage = \<lparr>ms_value = [], nextLink = None, deltaLink = None\<rparr>"

definition tokenListPage :: g_response where
  "tokenListPage = \<lparr>g_items = None, nextSyncToken = Some ''sync-1'', nextPageToken = Some ''page-2''\<rparr>"

definition lastListPage :: g_response where
  "lastListPage = \<lparr>g_items = Some [], nextSyncToken = None, nextPageToken = None\<rparr>"

definition listedEvent :: g_event where
  "listedEvent = \<lparr>g_id = ''g-1'', g_status = Some ''confirmed'', g_raw = ''Standup''\<rparr>"

definition onlyListPage :: g_response where
  "onlyListPage = \<lparr>g_items = Some [listedEvent], nextSyncToken = Some ''sync-1'',
                   nextPageToken = None\<rparr>"

section \<open>Properties of the merge\<close>

lemma insertBy_insort_key:
  "insertBy comparator p ps = insort_key snd p ps"
  by (induction ps) (auto simp: comparator_def compare_def)

lemma sortBy_sort_key:
  "sortBy comparator ps = sort_key snd ps"
proof -
  have "insertBy comparator = insort_key snd"
    by (intro ext) (rule insertBy_insort_key)
  then show ?thesis
    by (simp add: sortBy_def sort_key_def)
qed

lemma aggregate_sort_key:
  "aggregate results = sort_key sortKey (allEvents results)"
proof -
  have "map fst (sort_key snd (map (\<lambda>v. (v, sortKey v)) xs)) = sort_key sortKey xs" for xs
  proof (induction xs)
    case Nil
    show ?case by simp
  next
    case (Cons x xs)
    have ins: "map fst (insort_key snd (x, sortKey x) ps) = insort_key sortKey x (map fst ps)"
      if "\<forall>p \<in> set ps. snd p = sortKey (fst p)" for ps
      using that by (induction ps) auto
    have tagged: "\<forall>p \<in> set (sort_key snd (map (\<lambda>v. (v, sortKey v)) xs)). snd p = sortKey (fst p)"
      by auto
    show ?case
      using Cons.IH ins [OF tagged] by (simp add: sort_key_def)
  qed
  then show ?thesis
    by (simp add: aggregate_def sortBy_sort_key)
qed

lemma comparator_le:
  "comparator p q \<le> 0 \<longleftrightarrow> snd p \<le> snd q"
  by (simp add: comparator_def compare_def)

lemma comparator_tie:
  "comparator p q = 0 \<longleftrightarrow> snd p = snd q"
  by (simp add: comparator_def compare_def)

text \<open>
  C3, as the code has it: the list \<open>events.list\<close> returns holds exactly the fetched
  events, ascending by start instant in UTC whatever the order they arrived in. The
  comparator looks at the instants only: it is total and transitive, and it reports a
  tie exactly when two instants are equal, whichever events carry them. Events with
  equal instants stay in their order of arrival (the sort is stable).
\<close>

theorem aggregate_sorted_stable:
  "sorted (map sortKey (aggregate results))
   \<and> mset (aggregate results) = mset (allEvents results)
   \<and> filter (\<lambda>e. sortKey e = k) (aggregate results) = filter (\<lambda>e. sortKey e = k) (allEvents results)
   \<and> (comparator p q \<le> 0 \<or> comparator q p \<le> 0)
   \<and> (comparator p q \<le> 0 \<and> comparator q r \<le> 0 \<longrightarrow> comparator p r \<le> 0)
   \<and> (comparator p q = 0 \<longleftrightarrow> snd p = snd q)"
proof -
  have "sorted (map sortKey (aggregate results))"
    by (simp add: aggregate_sort_key)
  moreover have "mset (aggregate results) = mset (allEvents results)"
    by (simp add: aggregate_sort_key)
  moreover have "filter (\<lambda>e. sortKey e = k) (aggregate results)
      = filter (\<lambda>e. sortKey e = k) (allEvents results)"
    by (simp add: aggregate_sort_key sort_key_stable)
  moreover have "comparator p q \<le> 0 \<or> comparator q p \<le> 0"
    unfolding comparator_le by linarith
  moreover have "comparator p q \<le> 0 \<and> comparator q r \<le> 0 \<longrightarrow> comparator p r \<le> 0"
    unfolding comparator_le by linarith
  ultimately show ?thesis
    using comparator_tie by blast
qed

text \<open>The scenario of the spec: pages arrive as \<open>[A, B]\<close> with A at 09:00 and B at 08:00.\<close>

theorem aggregate_sorted_stable_witness:
  "aggregate [[sampleResult [sampleEvent ''A'' nineUTC]], [sampleResult [sampleEvent ''B'' eightUTC]]]
     = [sampleEvent ''B'' eightUTC, sampleEvent ''A'' nineUTC]
   \<and> sorted (map sortKey (aggregate
        [[sampleResult [sampleEvent ''A'' nineUTC]], [sampleResult [sampleEvent ''B'' eightUTC]]]))
   \<and> comparator (sampleEvent ''B'' eightUTC, 28800000000000) (sampleEvent ''A'' nineUTC, 32400000000000) \<le> 0
   \<and> comparator (sampleEvent ''A'' nineUTC, 32400000000000) (sampleEvent ''A'' nineUTC, 32400000000000) = 0"
proof -
  have run: "aggregate [[sampleResult [sampleEvent ''A'' nineUTC]], [sampleResult [sampleEvent ''B'' eightUTC]]]
     = [sampleEvent ''B'' eightUTC, sampleEvent ''A'' nineUTC]"
    by (simp add: aggregate_def allEvents_def sortBy_def comparator_def compare_def sortKey_def
        toInstant_def sampleResult_def sampleEvent_def nineUTC_def eightUTC_def)
  from run aggregate_sorted_stable
    [where results = "[[sampleResult [sampleEvent ''A'' nineUTC]], [sampleResult [sampleEvent ''B'' eightUTC]]]"
       and p = "(sampleEvent ''B'' eightUTC, 28800000000000)"
       and q = "(sampleEvent ''A'' nineUTC, 32400000000000)"
       and r = "(sampleEvent ''A'' nineUTC, 32400000000000)"]
  show ?thesis by (simp add: comparator_def compare_def)
qed

text \<open>
  C3 as stated fails: two different events that start at the same instant are a tie for
  the comparator, in both directions, so on the events it is no total order; and the
  order of the two in the output is the order they arrived in.
\<close>

theorem comparator_tie_counterexample:
  "sampleEvent ''A'' nineUTC \<noteq> sampleEvent ''B'' nineUTC
   \<and> comparator (sampleEvent ''A'' nineUTC, sortKey (sampleEvent ''A'' nineUTC))
                 (sampleEvent ''B'' nineUTC, sortKey (sampleEvent ''B'' nineUTC)) = 0
   \<and> comparator (sampleEvent ''B'' nineUTC, sortKey (sampleEvent ''B'' nineUTC))
                 (sampleEvent ''A'' nineUTC, sortKey (sampleEvent ''A'' nineUTC)) = 0
   \<and> aggregate [[sampleResult [sampleEvent ''A'' nineUTC, sampleEvent ''B'' nineUTC]]]
       = [sampleEvent ''A'' nineUTC, sampleEvent ''B'' nineUTC]
   \<and> aggregate [[sampleResult [sampleEvent ''B'' nineUTC, sampleEvent ''A'' nineUTC]]]
       = [sampleEvent ''B'' nineUTC, sampleEvent ''A'' nineUTC]"
  by (simp add: aggregate_def allEvents_def sortBy_def comparator_def compare_def sortKey_def
      toInstant_def sampleResult_def sampleEvent_def nineUTC_def)

section \<open>Properties of applying a change list\<close>

lemma applyChanges_at:
  "applyChanges cs c k =
     (if k \<in> changeId ` set cs then applyChanges cs Map.empty k else c k)"
proof (induction cs rule: rev_induct)
  case Nil
  show ?case by (simp add: applyChanges_def)
next
  case (snoc x xs)
  then show ?case
    by (cases x) (auto simp: applyChanges_def)
qed

lemma applyChange_absent:
  "evId i \<notin> dom c \<Longrightarrow> applyChange c (Deleted i) = c"
  by (auto simp: fun_eq_iff)

text \<open>
  C7: applying the same change list a second time changes nothing; an update stores
  the event under its id, whatever was there, and a deletion of an id the collection
  does not hold leaves the collection as it is.
\<close>

theorem applyChanges_idempotent:
  "applyChanges cs (applyChanges cs c) = applyChanges cs c
   \<and> applyChange c (Updated e) (evId e) = Some e
   \<and> (evId i \<notin> dom c \<longrightarrow> applyChange c (Deleted i) = c)"
proof -
  have "applyChanges cs (applyChanges cs c) k = applyChanges cs c k" for k
    using applyChanges_at [of cs "applyChanges cs c" k] applyChanges_at [of cs c k]
    by (simp split: if_splits)
  then have "applyChanges cs (applyChanges cs c) = applyChanges cs c"
    by (simp add: fun_eq_iff)
  then show ?thesis
    using applyChange_absent by simp
qed

theorem applyChanges_idempotent_witness:
  "''gone'' \<notin> dom [''A'' \<mapsto> sampleEvent ''A'' nineUTC]
   \<and> applyChange [''A'' \<mapsto> sampleEvent ''A'' nineUTC]
        (Deleted (event_identity.truncate (sampleEvent ''gone'' nineUTC)))
       = [''A'' \<mapsto> sampleEvent ''A'' nineUTC]
   \<and> applyChanges [Updated (sampleEvent ''A'' eightUTC), Deleted (event_identity.truncate (sampleEvent ''B'' nineUTC))]
       (applyChanges [Updated (sampleEvent ''A'' eightUTC), Deleted (event_identity.truncate (sampleEvent ''B'' nineUTC))]
          [''A'' \<mapsto> sampleEvent ''A'' nineUTC, ''B'' \<mapsto> sampleEvent ''B'' nineUTC])
       = [''A'' \<mapsto> sampleEvent ''A'' eightUTC]"
proof -
  have absent: "evId (event_identity.truncate (sampleEvent ''gone'' nineUTC))
      \<notin> dom [''A'' \<mapsto> sampleEvent ''A'' nineUTC]"
    by (simp add: sampleEvent_def event_identity.truncate_def)
  have once: "applyChanges [Updated (sampleEvent ''A'' eightUTC), Deleted (event_identity.truncate (sampleEvent ''B'' nineUTC))]
          [''A'' \<mapsto> sampleEvent ''A'' nineUTC, ''B'' \<mapsto> sampleEvent ''B'' nineUTC]
       = [''A'' \<mapsto> sampleEvent ''A'' eightUTC]"
    by (auto simp: applyChanges_def sampleEvent_def event_identity.truncate_def fun_eq_iff)
  from absent once
    applyChanges_idempotent [of
      "[Updated (sampleEvent ''A'' eightUTC), Deleted (event_identity.truncate (sampleEvent ''B'' nineUTC))]"
      "[''A'' \<mapsto> sampleEvent ''A'' nineUTC, ''B'' \<mapsto> sampleEvent ''B'' nineUTC]"]
    applyChanges_idempotent [where c = "[''A'' \<mapsto> sampleEvent ''A'' nineUTC]"
      and i = "event_identity.truncate (sampleEvent ''gone'' nineUTC)"]
  show ?thesis by simp
qed

section \<open>Properties of the optimistic projection\<close>

lemma withId_insert:
  "withId e (insertIntoSorted xs x p) =
     (if evId (itemEvent x) = e then withId e (takeWhile p xs) @ x # withId e (dropWhile p xs)
      else withId e xs)"
proof -
  have "withId e (takeWhile p xs) @ withId e (dropWhile p xs) = withId e xs"
    unfolding withId_def by (metis filter_append takeWhile_dropWhile_id)
  then show ?thesis
    by (simp add: withId_def insertIntoSorted_def)
qed

lemma withId_Nil_parts:
  "withId e xs = [] \<Longrightarrow> withId e (takeWhile p xs) = [] \<and> withId e (dropWhile p xs) = []"
  unfolding withId_def
  by (metis append_is_Nil_conv filter_append takeWhile_dropWhile_id)

lemma withId_filter_other:
  "k \<noteq> e \<Longrightarrow> withId e (filter (\<lambda>a. evId (itemEvent a) \<noteq> k) xs) = withId e xs"
  unfolding withId_def by (induction xs) auto

lemma withId_applyAction_other:
  "wellKeyed (k, a) \<Longrightarrow> k \<noteq> e \<Longrightarrow> withId e (applyAction tz xs a) = withId e xs"
  by (cases a) (auto simp: withId_insert withId_filter_other convertEventToItem_def)

lemma withId_fold_other:
  "\<forall>p \<in> set acts. wellKeyed p \<and> fst p \<noteq> e \<Longrightarrow>
   withId e (foldl (applyAction tz) xs (map snd acts)) = withId e xs"
proof (induction acts arbitrary: xs)
  case Nil
  show ?case by simp
next
  case (Cons p acts)
  obtain k a where p: "p = (k, a)" by (cases p)
  with Cons.prems have "wellKeyed (k, a)" "k \<noteq> e" by auto
  then have "withId e (applyAction tz xs a) = withId e xs"
    by (rule withId_applyAction_other)
  with Cons p show ?case by simp
qed

lemma withId_initial:
  "(e, a) \<in> set acts \<Longrightarrow>
   withId e (filter (\<lambda>event. isUndefinedAt acts (evId (itemEvent event))) items) = []"
  by (force simp: withId_def isUndefinedAt_def filter_empty_conv map_of_eq_None_iff)

lemma split_entry:
  assumes "distinct (map fst acts)" "(e, a) \<in> set acts"
  obtains pre post where "acts = pre @ (e, a) # post"
    "\<forall>p \<in> set pre. fst p \<noteq> e" "\<forall>p \<in> set post. fst p \<noteq> e"
proof -
  from assms(2) obtain pre post where sp: "acts = pre @ (e, a) # post"
    by (auto simp: in_set_conv_decomp)
  with assms(1) have "\<forall>p \<in> set pre. fst p \<noteq> e" "\<forall>p \<in> set post. fst p \<noteq> e"
    by auto
  with sp show ?thesis using that by blast
qed

lemma overlay_at:
  assumes d: "distinct (map fst acts)" and w: "\<forall>p \<in> set acts. wellKeyed p"
    and m: "(e, a) \<in> set acts"
  shows "withId e (applyOptimisticActions items tz acts) = withId e (applyAction tz [] a)"
proof -
  from d m obtain pre post where sp: "acts = pre @ (e, a) # post"
    and pre: "\<forall>p \<in> set pre. fst p \<noteq> e" and post: "\<forall>p \<in> set post. fst p \<noteq> e"
    by (rule split_entry)
  let ?init = "filter (\<lambda>event. isUndefinedAt acts (evId (itemEvent event))) items"
  let ?mid = "foldl (applyAction tz) ?init (map snd pre)"
  have init: "withId e ?init = []" using m by (rule withId_initial)
  have "withId e ?mid = withId e ?init"
    using pre w sp by (intro withId_fold_other) auto
  with init have mid: "withId e ?mid = []" by simp
  have key: "wellKeyed (e, a)" using w m by auto
  have step: "withId e (applyAction tz ?mid a) = withId e (applyAction tz [] a)"
    using key mid withId_Nil_parts [OF mid]
    by (cases a) (auto simp: withId_insert insertIntoSorted_def withId_def filter_empty_conv)
  have "applyOptimisticActions items tz acts
      = foldl (applyAction tz) (applyAction tz ?mid a) (map snd post)"
    by (simp add: applyOptimisticActions_def sp)
  moreover have "withId e (foldl (applyAction tz) (applyAction tz ?mid a) (map snd post))
      = withId e (applyAction tz ?mid a)"
    using post w sp by (intro withId_fold_other) auto
  ultimately show ?thesis using step by simp
qed

lemma itemInstant_convert:
  "itemInstant tz (convertEventToItem ev tz) = toInstant (start ev) tz"
  by (simp add: itemInstant_def convertEventToItem_def toInstant_def)

lemma sorted_insertIntoSorted:
  assumes "sorted (map (itemInstant tz) xs)" and "itemInstant tz x = k"
  shows "sorted (map (itemInstant tz) (insertIntoSorted xs x (\<lambda>a. itemInstant tz a < k)))"
  using assms(1)
proof (induction xs)
  case Nil
  show ?case by (simp add: insertIntoSorted_def)
next
  case (Cons y ys)
  show ?case
  proof (cases "itemInstant tz y < k")
    case True
    have "sorted (map (itemInstant tz) (insertIntoSorted ys x (\<lambda>a. itemInstant tz a < k)))"
      using Cons by simp
    with True Cons.prems assms(2) show ?thesis
      by (auto simp: insertIntoSorted_def dest: set_takeWhileD set_dropWhileD)
  next
    case False
    with Cons.prems assms(2) show ?thesis
      by (auto simp: insertIntoSorted_def)
  qed
qed

lemma sorted_applyAction:
  assumes "sorted (map (itemInstant tz) xs)"
  shows "sorted (map (itemInstant tz) (applyAction tz xs a))"
proof -
  have ins: "sorted (map (itemInstant tz)
      (insertIntoSorted xs (convertEventToItem ev tz) (\<lambda>a. isBefore (itemStart a) (start ev) tz)))"
    for ev
  proof -
    have "(\<lambda>a. isBefore (itemStart a) (start ev) tz)
        = (\<lambda>a. itemInstant tz a < toInstant (start ev) tz)"
      by (simp add: isBefore_def itemInstant_def)
    then show ?thesis
      using sorted_insertIntoSorted [OF assms itemInstant_convert] by simp
  qed
  show ?thesis
    using ins assms by (cases a) (simp_all add: sorted_filter)
qed

lemma sorted_fold:
  "sorted (map (itemInstant tz) xs) \<Longrightarrow>
   sorted (map (itemInstant tz) (foldl (applyAction tz) xs as))"
  by (induction as arbitrary: xs) (simp_all add: sorted_applyAction)

lemma sorted_overlay:
  "sorted (map (itemInstant tz) items) \<Longrightarrow>
   sorted (map (itemInstant tz) (applyOptimisticActions items tz acts))"
  unfolding applyOptimisticActions_def
  by (intro sorted_fold sorted_filter)

lemma overlay_single_update:
  "applyOptimisticActions items tz [(e, Update i e E')] =
     insertIntoSorted
       (filter (\<lambda>a. evId (itemEvent a) \<noteq> e \<and> evId (itemEvent a) \<notin> set objectPrototypeKeys) items)
       (convertEventToItem E' tz)
       (\<lambda>a. isBefore (itemStart a) (start E') tz)"
proof -
  have "isUndefinedAt [(e, Update i e E')] k \<longleftrightarrow> k \<noteq> e \<and> k \<notin> set objectPrototypeKeys" for k
    by (auto simp: isUndefinedAt_def)
  then show ?thesis
    by (simp add: applyOptimisticActions_def)
qed

text \<open>
  C2: in a store whose entries are keyed by the id of their event, a delete action for
  \<open>e\<close> leaves no event with id \<open>e\<close> in the projection, and an update action for \<open>e\<close>
  carrying \<open>E'\<close> leaves exactly one, the item of \<open>E'\<close>. Its position follows
  \<open>E'.start\<close>: a confirmed list ordered by start instant stays ordered, and with that
  action alone the item stands right behind the leading run of the confirmed items
  kept that start before it. The confirmed items kept are those whose id is neither
  \<open>e\<close> nor a name the store object inherits.
\<close>

theorem applyOptimisticActions_overlay:
  assumes "distinct (map fst acts)"
    and "\<forall>p \<in> set acts. wellKeyed p"
  shows "((e, Delete i e) \<in> set acts \<longrightarrow>
            (\<forall>a \<in> set (applyOptimisticActions items tz acts). evId (itemEvent a) \<noteq> e))
       \<and> ((e, Update i e E') \<in> set acts \<longrightarrow>
            filter (\<lambda>a. evId (itemEvent a) = e) (applyOptimisticActions items tz acts)
              = [convertEventToItem E' tz]
            \<and> itemEvent (convertEventToItem E' tz) = E')
       \<and> (sorted (map (itemInstant tz) items) \<longrightarrow>
            sorted (map (itemInstant tz) (applyOptimisticActions items tz acts)))
       \<and> applyOptimisticActions items tz [(e, Update i e E')]
            = takeWhile (\<lambda>a. isBefore (itemStart a) (start E') tz)
                (filter (\<lambda>a. evId (itemEvent a) \<noteq> e
                            \<and> evId (itemEvent a) \<notin> set objectPrototypeKeys) items)
              @ convertEventToItem E' tz
              # dropWhile (\<lambda>a. isBefore (itemStart a) (start E') tz)
                  (filter (\<lambda>a. evId (itemEvent a) \<noteq> e
                              \<and> evId (itemEvent a) \<notin> set objectPrototypeKeys) items)"
proof -
  have del: "\<forall>a \<in> set (applyOptimisticActions items tz acts). evId (itemEvent a) \<noteq> e"
    if "(e, Delete i e) \<in> set acts"
  proof -
    have "withId e (applyOptimisticActions items tz acts) = []"
      using overlay_at [OF assms that] by (simp add: withId_def)
    then show ?thesis
      by (simp add: withId_def filter_empty_conv)
  qed
  have upd: "filter (\<lambda>a. evId (itemEvent a) = e) (applyOptimisticActions items tz acts)
      = [convertEventToItem E' tz]"
    if m: "(e, Update i e E')  \<in> set acts"
  proof -
    have "wellKeyed (e, Update i e E')" using assms(2) m by blast
    then have "evId E' = e" by simp
    then have "withId e (applyAction tz [] (Update i e E')) = [convertEventToItem E' tz]"
      by (simp add: withId_def insertIntoSorted_def convertEventToItem_def)
    with overlay_at [OF assms m] show ?thesis
      by (simp add: withId_def)
  qed
  have ev: "itemEvent (convertEventToItem E' tz) = E'"
    by (simp add: convertEventToItem_def)
  show ?thesis
    using del upd ev sorted_overlay overlay_single_update [of items tz e i E']
    by (simp add: insertIntoSorted_def)
qed

lemma sample_run:
  "applyOptimisticActions sampleItems ''UTC'' sampleActions
     = [convertEventToItem (sampleEvent ''D'' sevenUTC) ''UTC'',
        convertEventToItem (sampleEvent ''B'' nineUTC) ''UTC'']"
  by (simp add: applyOptimisticActions_def isUndefinedAt_def objectPrototypeKeys_def
      sampleItems_def sampleActions_def insertIntoSorted_def
      convertEventToItem_def sampleEvent_def isBefore_def toInstant_def
      sevenUTC_def eightUTC_def nineUTC_def)

text \<open>
  A confirmed event whose id is a name the store object inherits is taken for one
  with a pending action and leaves the projection.
\<close>

lemma inherited_key_run:
  "applyOptimisticActions
       [convertEventToItem (sampleEvent ''constructor'' nineUTC) ''UTC'',
        convertEventToItem (sampleEvent ''B'' nineUTC) ''UTC'']
       ''UTC'' [(''B'', Update None ''B'' (sampleEvent ''B'' sevenUTC))]
     = [convertEventToItem (sampleEvent ''B'' sevenUTC) ''UTC'']"
  by (simp add: applyOptimisticActions_def isUndefinedAt_def objectPrototypeKeys_def
      insertIntoSorted_def convertEventToItem_def sampleEvent_def)

theorem applyOptimisticActions_overlay_witness:
  "distinct (map fst sampleActions) \<and> list_all wellKeyed sampleActions
   \<and> (''A'', Delete None ''A'') \<in> set sampleActions
   \<and> (''D'', Update None ''D'' (sampleEvent ''D'' sevenUTC)) \<in> set sampleActions
   \<and> ''A'' \<in> set (map (evId \<circ> itemEvent) sampleItems)
   \<and> sorted (map (itemInstant ''UTC'') sampleItems)
   \<and> applyOptimisticActions sampleItems ''UTC'' sampleActions
        = [convertEventToItem (sampleEvent ''D'' sevenUTC) ''UTC'',
           convertEventToItem (sampleEvent ''B'' nineUTC) ''UTC'']
   \<and> ''A'' \<notin> set (map (evId \<circ> itemEvent) (applyOptimisticActions sampleItems ''UTC'' sampleActions))
   \<and> filter (\<lambda>a. evId (itemEvent a) = ''D'') (applyOptimisticActions sampleItems ''UTC'' sampleActions)
        = [convertEventToItem (sampleEvent ''D'' sevenUTC) ''UTC'']
   \<and> sorted (map (itemInstant ''UTC'') (applyOptimisticActions sampleItems ''UTC'' sampleActions))
   \<and> applyOptimisticActions
         [convertEventToItem (sampleEvent ''constructor'' nineUTC) ''UTC'',
          convertEventToItem (sampleEvent ''B'' nineUTC) ''UTC'']
         ''UTC'' [(''B'', Update None ''B'' (sampleEvent ''B'' sevenUTC))]
       = [convertEventToItem (sampleEvent ''B'' sevenUTC) ''UTC'']"
proof -
  have d: "distinct (map fst sampleActions)"
    by (simp add: sampleActions_def)
  have w: "\<forall>p \<in> set sampleActions. wellKeyed p"
    by (simp add: sampleActions_def sampleEvent_def)
  have m1: "(''A'', Delete None ''A'') \<in> set sampleActions"
    and m2: "(''D'', Update None ''D'' (sampleEvent ''D'' sevenUTC)) \<in> set sampleActions"
    by (simp_all add: sampleActions_def)
  have c: "''A'' \<in> set (map (evId \<circ> itemEvent) sampleItems)"
    by (simp add: sampleItems_def convertEventToItem_def sampleEvent_def)
  have s: "sorted (map (itemInstant ''UTC'') sampleItems)"
    by (simp add: sampleItems_def itemInstant_convert toInstant_def sampleEvent_def
        eightUTC_def nineUTC_def)
  note t1 = applyOptimisticActions_overlay [OF d w, where e = "''A''" and i = None and E' = "sampleEvent ''D'' sevenUTC"
      and items = sampleItems and tz = "''UTC''"]
  note t2 = applyOptimisticActions_overlay [OF d w, where e = "''D''" and i = None and E' = "sampleEvent ''D'' sevenUTC"
      and items = sampleItems and tz = "''UTC''"]
  from t1 m1 have "\<forall>a \<in> set (applyOptimisticActions sampleItems ''UTC'' sampleActions). evId (itemEvent a) \<noteq> ''A''"
    by blast
  then have r1: "''A'' \<notin> set (map (evId \<circ> itemEvent) (applyOptimisticActions sampleItems ''UTC'' sampleActions))"
    by auto
  from t2 m2 have r2: "filter (\<lambda>a. evId (itemEvent a) = ''D'') (applyOptimisticActions sampleItems ''UTC'' sampleActions)
        = [convertEventToItem (sampleEvent ''D'' sevenUTC) ''UTC'']"
    by blast
  from t1 s have r3: "sorted (map (itemInstant ''UTC'') (applyOptimisticActions sampleItems ''UTC'' sampleActions))"
    by blast
  from d w m1 m2 c s sample_run r1 r2 r3 inherited_key_run show ?thesis
    by (simp only: list_all_iff simp_thms)
qed

section \<open>Properties of the mutation hooks\<close>

lemma queryData_restore:
  "queryData (setQueryData (\<lambda>_. Some d) s) = Some d"
  by (simp add: setQueryData_def)

lemma createOnMutate_frame:
  "previousEvents (fst (createOnMutate tz ev s)) = queryData s"
  "optimisticActions (snd (createOnMutate tz ev s)) = optimisticActions s"
  "queryData s = None \<Longrightarrow> queryData (snd (createOnMutate tz ev s)) = None"
  by (simp_all add: createOnMutate_def cancelQueries_def getQueryData_def setQueryData_def Let_def
      split: option.splits)

lemma updateOnMutate_frame:
  "previousEvents (fst (updateOnMutate tz v s)) = queryData s"
  "optimisticActions (snd (updateOnMutate tz v s)) = optimisticActions s"
  "queryData s = None \<Longrightarrow> queryData (snd (updateOnMutate tz v s)) = None"
  by (simp_all add: updateOnMutate_def cancelQueries_def getQueryData_def setQueryData_def Let_def
      split: option.splits)

lemma createOnError_restores:
  "queryData (createOnError err ev (Some c) s') =
     (case previousEvents c of None \<Rightarrow> queryData s' | Some d \<Rightarrow> Some d)"
  "optimisticActions (createOnError err ev ctx s') = optimisticActions s'"
  "toasts (createOnError err ev ctx s') = toasts s' @ [message err]"
  by (simp_all add: createOnError_def toastError_def setQueryData_def Let_def split: option.splits)

lemma updateOnError_restores:
  "queryData (updateOnError err v (Some c) s') =
     (case previousEvents c of None \<Rightarrow> queryData s' | Some d \<Rightarrow> Some d)"
  "optimisticActions (updateOnError err v ctx s') = optimisticActions s'"
  "toasts (updateOnError err v ctx s') = toasts s' @ [message err]"
  by (simp_all add: updateOnError_def toastError_def setQueryData_def Let_def split: option.splits)

lemma onSettled_frame:
  "queryData (onSettled s) = queryData s"
  "optimisticActions (onSettled s) = optimisticActions s"
  "toasts (onSettled s) = toasts s"
  by (simp_all add: onSettled_def invalidateQueries_def)

lemma displayed_cong:
  "queryData s = queryData s' \<Longrightarrow> optimisticActions s = optimisticActions s' \<Longrightarrow>
   displayed tz s = displayed tz s'"
  by (simp add: displayed_def)

lemma create_rollback:
  "queryData (snd (mutate (createOnMutate tz) createOnError ev (Inl err) s)) = queryData s"
  "optimisticActions (snd (mutate (createOnMutate tz) createOnError ev (Inl err) s)) = optimisticActions s"
proof -
  obtain c s1 where m: "createOnMutate tz ev s = (c, s1)" by (cases "createOnMutate tz ev s")
  have c: "previousEvents c = queryData s" and a: "optimisticActions s1 = optimisticActions s"
    and n: "queryData s = None \<Longrightarrow> queryData s1 = None"
    using createOnMutate_frame [where tz = tz and ev = ev and s = s] m by simp_all
  show "queryData (snd (mutate (createOnMutate tz) createOnError ev (Inl err) s)) = queryData s"
    using c n by (cases "queryData s") (simp_all add: mutate_def m onSettled_frame createOnError_restores)
  show "optimisticActions (snd (mutate (createOnMutate tz) createOnError ev (Inl err) s)) = optimisticActions s"
    using a by (simp add: mutate_def m onSettled_frame createOnError_restores)
qed

lemma update_rollback:
  "queryData (snd (mutate (updateOnMutate tz) updateOnError v (Inl err) s)) = queryData s"
  "optimisticActions (snd (mutate (updateOnMutate tz) updateOnError v (Inl err) s)) = optimisticActions s"
proof -
  obtain c s1 where m: "updateOnMutate tz v s = (c, s1)" by (cases "updateOnMutate tz v s")
  have c: "previousEvents c = queryData s" and a: "optimisticActions s1 = optimisticActions s"
    and n: "queryData s = None \<Longrightarrow> queryData s1 = None"
    using updateOnMutate_frame [where tz = tz and v = v and s = s] m by simp_all
  show "queryData (snd (mutate (updateOnMutate tz) updateOnError v (Inl err) s)) = queryData s"
    using c n by (cases "queryData s") (simp_all add: mutate_def m onSettled_frame updateOnError_restores)
  show "optimisticActions (snd (mutate (updateOnMutate tz) updateOnError v (Inl err) s)) = optimisticActions s"
    using a by (simp add: mutate_def m onSettled_frame updateOnError_restores)
qed

text \<open>
  C4: when the remote call of a create or an update fails, the run leaves the cache
  entry as it was before \<open>onMutate\<close>, and so what the view displays, the projection of
  the cache through the optimistic store (which the hooks do not touch), is what it
  was. Whatever happened to the cache in between, \<open>onError\<close> with a defined snapshot
  puts that snapshot back.
\<close>

theorem failed_mutation_rollback:
  "queryData (snd (mutate (createOnMutate tz) createOnError newEvent (Inl err) s)) = queryData s
   \<and> displayed tz (snd (mutate (createOnMutate tz) createOnError newEvent (Inl err) s)) = displayed tz s
   \<and> queryData (snd (mutate (updateOnMutate tz) updateOnError v (Inl err) s)) = queryData s
   \<and> displayed tz (snd (mutate (updateOnMutate tz) updateOnError v (Inl err) s)) = displayed tz s
   \<and> queryData (createOnError err newEvent (Some \<lparr>previousEvents = Some d\<rparr>) s') = Some d
   \<and> queryData (updateOnError err v (Some \<lparr>previousEvents = Some d\<rparr>) s') = Some d"
proof -
  have "displayed tz (snd (mutate (createOnMutate tz) createOnError newEvent (Inl err) s)) = displayed tz s"
    by (rule displayed_cong) (rule create_rollback)+
  moreover have "displayed tz (snd (mutate (updateOnMutate tz) updateOnError v (Inl err) s)) = displayed tz s"
    by (rule displayed_cong) (rule update_rollback)+
  ultimately show ?thesis
    by (simp add: create_rollback update_rollback createOnError_restores updateOnError_restores)
qed

lemma deleteOnMutate_frame:
  "previousEvents (fst (deleteOnMutate eventId s)) = queryData s"
  "queryData (snd (deleteOnMutate eventId s)) =
     map_option (\<lambda>p. p\<lparr>dataEvents := filter (\<lambda>e. evId e \<noteq> eventId) (dataEvents p)\<rparr>) (queryData s)"
  "toasts (snd (deleteOnMutate eventId s)) = toasts s"
  by (simp_all add: deleteOnMutate_def cancelQueries_def getQueryData_def setQueryData_def Let_def
      split: option.splits)

lemma deleteOnError_other:
  "\<not> isAlreadyDeleted err \<Longrightarrow>
   queryData (deleteOnError isAlreadyDeleted err eventId (Some c) s') =
     (case previousEvents c of None \<Rightarrow> queryData s' | Some d \<Rightarrow> Some d)"
  "\<not> isAlreadyDeleted err \<Longrightarrow>
   toasts (deleteOnError isAlreadyDeleted err eventId ctx s') = toasts s' @ [message err]"
  by (simp_all add: deleteOnError_def toastError_def setQueryData_def Let_def split: option.splits)

text \<open>
  C6: a delete whose failure says the event was already gone ends in the state a
  successful delete ends in: the cached list without the event, no toast, no snapshot
  put back. Any other failure puts the cache back to what it was and shows the error.
\<close>

theorem delete_already_gone:
  "(isAlreadyDeleted err \<longrightarrow>
      snd (mutate deleteOnMutate (deleteOnError isAlreadyDeleted) eventId (Inl err) s)
        = snd (mutate deleteOnMutate (deleteOnError isAlreadyDeleted) eventId (Inr ()) s)
      \<and> queryData (snd (mutate deleteOnMutate (deleteOnError isAlreadyDeleted) eventId (Inl err) s))
        = map_option (\<lambda>p. p\<lparr>dataEvents := filter (\<lambda>e. evId e \<noteq> eventId) (dataEvents p)\<rparr>)
            (queryData s)
      \<and> toasts (snd (mutate deleteOnMutate (deleteOnError isAlreadyDeleted) eventId (Inl err) s))
        = toasts s)
   \<and> (\<not> isAlreadyDeleted err \<longrightarrow>
      queryData (snd (mutate deleteOnMutate (deleteOnError isAlreadyDeleted) eventId (Inl err) s))
        = queryData s
      \<and> toasts (snd (mutate deleteOnMutate (deleteOnError isAlreadyDeleted) eventId (Inl err) s))
        = toasts s @ [message err])"
proof -
  obtain c s1 where m: "deleteOnMutate eventId s = (c, s1)" by (cases "deleteOnMutate eventId s")
  have c: "previousEvents c = queryData s"
    and q: "queryData s1 =
      map_option (\<lambda>p. p\<lparr>dataEvents := filter (\<lambda>e. evId e \<noteq> eventId) (dataEvents p)\<rparr>) (queryData s)"
    and t: "toasts s1 = toasts s"
    using deleteOnMutate_frame [where eventId = eventId and s = s] m by simp_all
  have ok: "snd (mutate deleteOnMutate (deleteOnError isAlreadyDeleted) eventId (Inr ()) s) = onSettled s1"
    by (simp add: mutate_def m)
  have gone: "snd (mutate deleteOnMutate (deleteOnError isAlreadyDeleted) eventId (Inl err) s)
        = snd (mutate deleteOnMutate (deleteOnError isAlreadyDeleted) eventId (Inr ()) s)
      \<and> queryData (snd (mutate deleteOnMutate (deleteOnError isAlreadyDeleted) eventId (Inl err) s))
        = map_option (\<lambda>p. p\<lparr>dataEvents := filter (\<lambda>e. evId e \<noteq> eventId) (dataEvents p)\<rparr>)
            (queryData s)
      \<and> toasts (snd (mutate deleteOnMutate (deleteOnError isAlreadyDeleted) eventId (Inl err) s))
        = toasts s"
    if "isAlreadyDeleted err"
  proof -
    have e: "snd (mutate deleteOnMutate (deleteOnError isAlreadyDeleted) eventId (Inl err) s) = onSettled s1"
      using that by (simp add: mutate_def m deleteOnError_def)
    show ?thesis
      unfolding e ok by (simp add: onSettled_frame q t)
  qed
  have other: "queryData (snd (mutate deleteOnMutate (deleteOnError isAlreadyDeleted) eventId (Inl err) s))
        = queryData s
      \<and> toasts (snd (mutate deleteOnMutate (deleteOnError isAlreadyDeleted) eventId (Inl err) s))
        = toasts s @ [message err]"
    if "\<not> isAlreadyDeleted err"
    using that c q t
    by (cases "queryData s") (simp_all add: mutate_def m onSettled_frame deleteOnError_other)
  show ?thesis
    using gone other by blast
qed

text \<open>
  A create at 07:00 into a cache of two events, failing on the network.
\<close>

theorem failed_mutation_rollback_witness:
  "queryData (snd (createOnMutate ''UTC'' (sampleEvent ''D'' sevenUTC) sampleClient))
     = Some \<lparr>dataEvents = [sampleEvent ''D'' sevenUTC, sampleEvent ''A'' eightUTC, sampleEvent ''B'' nineUTC],
             dataRecurringMasterEvents = Map.empty\<rparr>
   \<and> queryData (snd (mutate (createOnMutate ''UTC'') createOnError (sampleEvent ''D'' sevenUTC)
        (Inl networkDown) sampleClient))
     = Some \<lparr>dataEvents = [sampleEvent ''A'' eightUTC, sampleEvent ''B'' nineUTC],
             dataRecurringMasterEvents = Map.empty\<rparr>
   \<and> displayed ''UTC'' (snd (mutate (createOnMutate ''UTC'') createOnError (sampleEvent ''D'' sevenUTC)
        (Inl networkDown) sampleClient))
     = displayed ''UTC'' sampleClient"
proof -
  have "queryData (snd (createOnMutate ''UTC'' (sampleEvent ''D'' sevenUTC) sampleClient))
     = Some \<lparr>dataEvents = [sampleEvent ''D'' sevenUTC, sampleEvent ''A'' eightUTC, sampleEvent ''B'' nineUTC],
             dataRecurringMasterEvents = Map.empty\<rparr>"
    by (simp add: createOnMutate_def cancelQueries_def getQueryData_def setQueryData_def
        sampleClient_def insertIntoSorted_def isBefore_def toInstant_def sampleEvent_def
        sevenUTC_def eightUTC_def nineUTC_def)
  moreover have "queryData sampleClient
     = Some \<lparr>dataEvents = [sampleEvent ''A'' eightUTC, sampleEvent ''B'' nineUTC],
             dataRecurringMasterEvents = Map.empty\<rparr>"
    by (simp add: sampleClient_def)
  moreover have "queryData (snd (mutate (createOnMutate ''UTC'') createOnError (sampleEvent ''D'' sevenUTC)
        (Inl networkDown) sampleClient)) = queryData sampleClient
   \<and> displayed ''UTC'' (snd (mutate (createOnMutate ''UTC'') createOnError (sampleEvent ''D'' sevenUTC)
        (Inl networkDown) sampleClient)) = displayed ''UTC'' sampleClient"
    using failed_mutation_rollback [where tz = "''UTC''" and newEvent = "sampleEvent ''D'' sevenUTC"
        and err = networkDown and s = sampleClient and s' = sampleClient
        and v = "\<lparr>updData = sampleEvent ''A'' nineUTC, updMove = None\<rparr>"
        and d = "\<lparr>dataEvents = [], dataRecurringMasterEvents = Map.empty\<rparr>"]
    by blast
  ultimately show ?thesis
    by simp
qed

theorem delete_already_gone_witness:
  "isGone alreadyGone \<and> \<not> isGone networkDown
   \<and> queryData (snd (mutate deleteOnMutate (deleteOnError isGone) ''A'' (Inl alreadyGone) sampleClient))
     = Some \<lparr>dataEvents = [sampleEvent ''B'' nineUTC], dataRecurringMasterEvents = Map.empty\<rparr>
   \<and> toasts (snd (mutate deleteOnMutate (deleteOnError isGone) ''A'' (Inl alreadyGone) sampleClient)) = []
   \<and> queryData (snd (mutate deleteOnMutate (deleteOnError isGone) ''A'' (Inl networkDown) sampleClient))
     = Some \<lparr>dataEvents = [sampleEvent ''A'' eightUTC, sampleEvent ''B'' nineUTC],
             dataRecurringMasterEvents = Map.empty\<rparr>
   \<and> toasts (snd (mutate deleteOnMutate (deleteOnError isGone) ''A'' (Inl networkDown) sampleClient))
     = [''Failed to fetch'']"
proof -
  have g: "isGone alreadyGone" and n: "\<not> isGone networkDown"
    by (simp_all add: isGone_def alreadyGone_def networkDown_def)
  have q: "queryData sampleClient
     = Some \<lparr>dataEvents = [sampleEvent ''A'' eightUTC, sampleEvent ''B'' nineUTC],
             dataRecurringMasterEvents = Map.empty\<rparr>"
    and t: "toasts sampleClient = []"
    by (simp_all add: sampleClient_def)
  have f: "filter (\<lambda>e. evId e \<noteq> ''A'') [sampleEvent ''A'' eightUTC, sampleEvent ''B'' nineUTC]
      = [sampleEvent ''B'' nineUTC]"
    by (simp add: sampleEvent_def)
  from g delete_already_gone [where isAlreadyDeleted = isGone and err = alreadyGone
      and eventId = "''A''" and s = sampleClient]
  have r1: "queryData (snd (mutate deleteOnMutate (deleteOnError isGone) ''A'' (Inl alreadyGone) sampleClient))
        = map_option (\<lambda>p. p\<lparr>dataEvents := filter (\<lambda>e. evId e \<noteq> ''A'') (dataEvents p)\<rparr>)
            (queryData sampleClient)"
    and r2: "toasts (snd (mutate deleteOnMutate (deleteOnError isGone) ''A'' (Inl alreadyGone) sampleClient))
        = toasts sampleClient"
    by blast+
  from n delete_already_gone [where isAlreadyDeleted = isGone and err = networkDown
      and eventId = "''A''" and s = sampleClient]
  have r3: "queryData (snd (mutate deleteOnMutate (deleteOnError isGone) ''A'' (Inl networkDown) sampleClient))
        = queryData sampleClient"
    and r4: "toasts (snd (mutate deleteOnMutate (deleteOnError isGone) ''A'' (Inl networkDown) sampleClient))
        = toasts sampleClient @ [message networkDown]"
    by blast+
  have msg: "message networkDown = ''Failed to fetch''"
    by (simp add: networkDown_def)
  show ?thesis
    unfolding r1 r2 r3 r4 q t msg using g n f by simp
qed

section \<open>Properties of the providers\<close>

lemma syncPages_returns:
  "fst (syncPages X a c tz ini base pt chs tr replies) = Returns r \<Longrightarrow>
   visited replies \<noteq> []
   \<and> changes r = chs @ concat (map (deltaPage X a c) (visited replies))
   \<and> syncToken r = deltaLink (last (visited replies))
   \<and> status r = Some Incremental"
proof (induction replies arbitrary: pt chs tr)
  case Nil
  then show ?case by simp
next
  case (Cons reply replies)
  show ?case
  proof (cases reply)
    case (Inl e)
    with Cons.prems show ?thesis by simp
  next
    case (Inr response)
    show ?thesis
    proof (cases "truthy (nextLink response)")
      case True
      with Cons.prems Inr
      have "fst (syncPages X a c tz ini base (nextLink response) (chs @ deltaPage X a c response)
                  (tr @ [Request (deltaRequest tz pt ini base)]) replies) = Returns r"
        by simp
      from Cons.IH [OF this] True Inr show ?thesis by simp
    next
      case False
      with Cons.prems Inr show ?thesis by auto
    qed
  qed
qed

lemma syncPages_answered:
  "answered replies \<Longrightarrow> \<exists>r. fst (syncPages X a c tz ini base pt chs tr replies) = Returns r"
proof (induction replies arbitrary: pt chs tr)
  case Nil
  then show ?case by simp
next
  case (Cons reply replies)
  then show ?case
    by (cases reply) (auto split: if_splits)
qed

lemma withErrorHandler_Returns:
  "fst (withErrorHandler X a operation fn ctx) = Returns r \<longleftrightarrow> fst fn = Returns r"
  by (cases "fst fn") (simp_all add: withErrorHandler_def)

lemma withErrorHandler_Throws:
  "fst fn = Throws e \<Longrightarrow>
   fst (withErrorHandler X a operation fn ctx) = Throws (ProviderError e operation ctx)"
  by (simp add: withErrorHandler_def)

lemma sync_returns:
  "fst (sync X a c ini tmin tmax tz replies) = Returns r \<Longrightarrow>
   visited replies \<noteq> []
   \<and> changes r = concat (map (deltaPage X a c) (visited replies))
   \<and> syncToken r = deltaLink (last (visited replies))
   \<and> status r = Some Incremental"
  unfolding sync_def withErrorHandler_Returns Let_def
  by (cases "urlParses X (calendarPath X (cal_id c) @ ''/calendarView/delta'')")
     (auto dest: syncPages_returns)

lemma sync_answered:
  "answered replies \<Longrightarrow> urlParses X (calendarPath X (cal_id c) @ ''/calendarView/delta'') \<Longrightarrow>
   \<exists>r. fst (sync X a c ini tmin tmax tz replies) = Returns r"
  unfolding sync_def withErrorHandler_Returns Let_def
  by (simp add: syncPages_answered)

lemma sync_invalid_url:
  "\<not> urlParses X (calendarPath X (cal_id c) @ ''/calendarView/delta'') \<Longrightarrow>
   fst (sync X a c ini tmin tmax tz replies)
     = Throws (ProviderError (JsError ''TypeError'' ''Invalid URL'') ''sync'' None)
   \<and> requests (snd (sync X a c ini tmin tmax tz replies)) = []"
  by (simp add: sync_def withErrorHandler_def Let_def)

lemma runPages_returns:
  "fst (runPages X a c tz cur pt chs tr replies) = Returns (chs', cur') \<Longrightarrow>
   listed replies \<noteq> []
   \<and> chs' = chs @ concat (map (listPage X a c tz) (listed replies))
   \<and> cur' = foldl keepToken cur (listed replies)"
proof (induction replies arbitrary: cur pt chs tr)
  case Nil
  then show ?case by simp
next
  case (Cons reply replies)
  show ?case
  proof (cases reply)
    case (Inl e)
    with Cons.prems show ?thesis by simp
  next
    case (Inr response)
    show ?thesis
    proof (cases "truthy (nextPageToken response)")
      case True
      with Cons.prems Inr
      have "fst (runPages X a c tz (keepToken cur response) (nextPageToken response)
                  (chs @ listPage X a c tz response)
                  (tr @ [EventsList \<lparr>listCalendarId = cal_id c, listPageToken = pt,
                                       listSyncToken = cur\<rparr>]) replies) = Returns (chs', cur')"
        by simp
      from Cons.IH [OF this] True Inr show ?thesis by simp
    next
      case False
      with Cons.prems Inr show ?thesis by auto
    qed
  qed
qed

lemma runSync_returns:
  assumes "fst (runSync X a c tz token replies) = Returns r"
  shows "listed replies \<noteq> []
   \<and> syncToken r = foldl keepToken token (listed replies)
   \<and> (\<exists>masters. recurringEvents X c
          (concat (map instanceOf (concat (map (listPage X a c tz) (listed replies))))) tz = Inr masters
        \<and> changes r = concat (map (listPage X a c tz) (listed replies)) @ map Updated masters)"
proof -
  obtain out tr rest where p: "runPages X a c tz token None [] [] replies = (out, tr, rest)"
    by (cases "runPages X a c tz token None [] [] replies")
  from assms p obtain chs cur where out: "out = Returns (chs, cur)"
    by (cases out) (auto simp: runSync_def split: sum.splits)
  from p out have "fst (runPages X a c tz token None [] [] replies) = Returns (chs, cur)"
    by simp
  from runPages_returns [OF this]
  have v: "listed replies \<noteq> []"
    and chs: "chs = concat (map (listPage X a c tz) (listed replies))"
    and cur: "cur = foldl keepToken token (listed replies)"
    by simp_all
  from assms p out show ?thesis
    using v chs cur by (auto simp: runSync_def split: sum.splits)
qed

lemma keepToken_None:
  "\<not> truthy (nextSyncToken response) \<Longrightarrow> keepToken tok response = tok"
  by (simp add: keepToken_def)

text \<open>
  The Google sibling: an expired token on the first run gives the result of the second
  run with status \<open>full\<close>; any other error is thrown on, wrapped.
\<close>

lemma googleSync_retry:
  assumes "runSync X a c tz ini replies = (Throws e, tr, rest)"
    and "tokenExpired X e"
    and "runSync X a c tz None rest = (Returns r, tr2, rest2)"
  shows "googleSync X a c ini tz replies = (Returns (r\<lparr>status := Some Full\<rparr>), tr @ tr2)"
  using assms by (simp add: googleSync_def googleWithErrorHandler_def)

lemma googleSync_other_error:
  assumes "runSync X a c tz ini replies = (Throws e, tr, rest)"
    and "\<not> tokenExpired X e"
  shows "googleSync X a c ini tz replies = (Throws (ProviderError e ''sync'' None), tr)"
  using assms by (simp add: googleSync_def googleWithErrorHandler_def)

lemma googleSync_retry_fails:
  assumes "runSync X a c tz ini replies = (Throws e, tr, rest)"
    and "tokenExpired X e"
    and "runSync X a c tz None rest = (Throws e2, tr2, rest2)"
  shows "googleSync X a c ini tz replies = (Throws (ProviderError e2 ''sync'' None), tr @ tr2)"
  using assms by (simp add: googleSync_def googleWithErrorHandler_def)

lemma runPages_first_call:
  "\<exists>more. fst (snd (runPages X a c tz cur pt chs tr replies))
     = tr @ EventsList \<lparr>listCalendarId = cal_id c, listPageToken = pt, listSyncToken = cur\<rparr> # more"
proof (induction replies arbitrary: cur pt chs tr)
  case Nil
  show ?case by simp
next
  case (Cons reply replies)
  show ?case
  proof (cases reply)
    case (Inl e)
    then show ?thesis by simp
  next
    case (Inr response)
    show ?thesis
    proof (cases "truthy (nextPageToken response)")
      case True
      from Cons.IH [of "keepToken cur response" "nextPageToken response"
          "chs @ listPage X a c tz response"
          "tr @ [EventsList \<lparr>listCalendarId = cal_id c, listPageToken = pt, listSyncToken = cur\<rparr>]"]
      show ?thesis using True Inr by auto
    next
      case False
      with Inr show ?thesis by simp
    qed
  qed
qed

lemma runSync_first_call:
  "\<exists>more. fst (snd (runSync X a c tz token replies))
     = EventsList \<lparr>listCalendarId = cal_id c, listPageToken = None, listSyncToken = token\<rparr> # more"
proof -
  obtain out tr rest where p: "runPages X a c tz token None [] [] replies = (out, tr, rest)"
    by (cases "runPages X a c tz token None [] [] replies")
  from runPages_first_call [of X a c tz token None "[]" "[]" replies] p
  obtain more where "tr = EventsList \<lparr>listCalendarId = cal_id c, listPageToken = None,
      listSyncToken = token\<rparr> # more"
    by auto
  with p show ?thesis
    by (cases out) (auto simp: runSync_def split: sum.splits)
qed

text \<open>
  A failed Graph delete is thrown on, wrapped, after the one DELETE request.
\<close>

lemma deleteEvent_failure:
  "deleteEvent X a calId eventId sendUpdate (Inl e) =
     (Throws (ProviderError e ''deleteEvent'' None),
      [Request \<lparr>meth = DELETE, url = Url (calendarPath X calId @ ''/events/'' @ eventId),
                preferTimeZone = None, orderby = None, top = None\<rparr>,
       ConsoleError
         \<lparr>logOperation = ''deleteEvent'', logProvider = ''microsoft'', logAccountId = a,
          logContext = None, logErrorMessage = errMessage X e, logErrorName = errName X e,
          logErrorType = (if isNetworkError X e then Some ''network'' else None)\<rparr>])"
  by (simp add: deleteEvent_def withErrorHandler_def)

lemma sync_first_error:
  "urlParses X (calendarPath X (cal_id c) @ ''/calendarView/delta'') \<Longrightarrow>
   sync X a c ini tmin tmax tz (Inl e # replies) =
     (Throws (ProviderError e ''sync'' None),
      [Request (deltaRequest tz None ini
         (DeltaUrl (calendarPath X (cal_id c) @ ''/calendarView/delta'')
            (if truthy (map_option (\<lambda>t. instantToString X (toInstant t ''UTC'')) tmin)
             then map_option (\<lambda>t. instantToString X (toInstant t ''UTC'')) tmin else None)
            (if truthy (map_option (\<lambda>t. instantToString X (toInstant t ''UTC'')) tmax)
             then map_option (\<lambda>t. instantToString X (toInstant t ''UTC'')) tmax else None))),
       ConsoleError
         \<lparr>logOperation = ''sync'', logProvider = ''microsoft'', logAccountId = a,
          logContext = None, logErrorMessage = errMessage X e, logErrorName = errName X e,
          logErrorType = (if isNetworkError X e then Some ''network'' else None)\<rparr>])"
  by (simp add: sync_def withErrorHandler_def Let_def)

lemma sync_never_full:
  "fst (sync X a c ini tmin tmax tz replies) \<noteq> Returns (r\<lparr>status := Some Full\<rparr>)"
proof
  assume "fst (sync X a c ini tmin tmax tz replies) = Returns (r\<lparr>status := Some Full\<rparr>)"
  from sync_returns [OF this] show False by simp
qed

lemma sampleExternals_simps:
  "calendarPath sampleExternals i = ''https://graph/me/calendars/'' @ i"
  "parseMicrosoftEvent sampleExternals ev acc cal =
     (sampleEvent (case ms_id ev of None \<Rightarrow> [] | Some i \<Rightarrow> i) nineUTC)
       \<lparr>calendarId := cal_id cal, accountId := acc, providerId := Microsoft,
        providerAccountId := acc, title := ms_raw ev\<rparr>"
  "parseGoogleCalendarEvent sampleExternals gev acc cal tz =
     (sampleEvent (g_id gev) nineUTC)
       \<lparr>calendarId := cal_id cal, accountId := acc, providerAccountId := acc, title := g_raw gev\<rparr>"
  "recurringEvents sampleExternals cal ids tz = Inr []"
  "tokenExpired sampleExternals (JsError n m) = (n = ''Gone'')"
  "tokenExpired sampleExternals (ProviderError c operation ctx) = False"
  "providerErrorName sampleExternals = ''ProviderError''"
  "providerErrorMessage sampleExternals c operation ctx = operation"
  "instantToString sampleExternals k = ''1970-01-01T00:00:00Z''"
  "urlParses sampleExternals u = (take 8 u = ''https://'')"
  by (simp_all add: sampleExternals_def)

lemmas sample_defs = sampleExternals_simps work_def home_def gone410_def notFound_def
  removedItem_def namelessItem_def plainItem_def firstPage_def finalPage_def earlyTokenPage_def
  silentPage_def tokenListPage_def lastListPage_def sampleEvent_def nineUTC_def

text \<open>
  C1 on \<open>MicrosoftCalendarProvider.sync\<close>: called with a stored delta link that the
  provider answers with 410 Gone, it sends that one request, logs, and throws the error
  wrapped as a provider error. It does not start over without the token, although the
  provider would have answered a fresh sync with a full page.
\<close>

theorem sync_expired_token_not_retried:
  "sync sampleExternals ''acct-1'' work (Some ''https://graph/delta-0'') None None ''UTC''
       [Inl gone410, Inr finalPage]
     = (Throws (ProviderError gone410 ''sync'' None),
        [Request \<lparr>meth = GET, url = Url ''https://graph/delta-0'', preferTimeZone = Some ''UTC'',
                  orderby = Some ''start/dateTime'', top = Some 250\<rparr>,
         ConsoleError \<lparr>logOperation = ''sync'', logProvider = ''microsoft'', logAccountId = ''acct-1'',
                       logContext = None, logErrorMessage = ''410: the sync state was not found'',
                       logErrorName = ''Gone'', logErrorType = None\<rparr>])
   \<and> tokenExpired sampleExternals gone410
   \<and> fst (sync sampleExternals ''acct-1'' work None None None ''UTC'' [Inr finalPage])
     = Returns \<lparr>changes = [Updated (parseMicrosoftEvent sampleExternals plainItem ''acct-1'' work)],
                syncToken = Some ''https://graph/delta-2'', status = Some Incremental\<rparr>"
  by (simp add: sync_first_error deltaRequest_def MAX_EVENTS_PER_CALENDAR_def isNetworkError_def
      sync_def withErrorHandler_def deltaPage_def deltaItem_def Let_def sample_defs)

lemma lastSeen_silent:
  "\<forall>page \<in> set pages. deltaLink page = None \<Longrightarrow> foldl seeToken tok pages = tok"
  by (induction pages arbitrary: tok) (simp_all add: seeToken_def)

text \<open>
  On pages as Graph sends them, with the delta link on the last page only, the token a
  Microsoft sync returns is the last token seen.
\<close>

lemma sync_token_last_seen:
  assumes "fst (sync X a c ini tmin tmax tz replies) = Returns r"
    and "\<forall>page \<in> set (butlast (visited replies)). deltaLink page = None"
  shows "syncToken r = lastSeen (visited replies)"
proof -
  from sync_returns [OF assms(1)]
  have ne: "visited replies \<noteq> []" and tok: "syncToken r = deltaLink (last (visited replies))"
    by simp_all
  from ne have "visited replies = butlast (visited replies) @ [last (visited replies)]"
    by simp
  then have "lastSeen (visited replies)
      = seeToken (foldl seeToken None (butlast (visited replies))) (last (visited replies))"
    unfolding lastSeen_def by (metis foldl_Cons foldl_Nil foldl_append)
  also have "\<dots> = seeToken None (last (visited replies))"
    using lastSeen_silent [OF assms(2)] by simp
  also have "\<dots> = deltaLink (last (visited replies))"
    by (cases "deltaLink (last (visited replies))") (simp_all add: seeToken_def)
  finally show ?thesis using tok by simp
qed

text \<open>
  A Google sync whose first run returns hands that result on as it is: the token the
  bookkeeping ends on, the changes of the pages followed by the fetched recurring
  masters, and no status, which \<open>runSync\<close> does not set.
\<close>

lemma googleSync_direct:
  assumes "runSync X a c tz ini replies = (Returns r, tr, rest)"
  shows "googleSync X a c ini tz replies = (Returns r, tr) \<and> status r = None"
proof -
  obtain out tr' rest' where p: "runPages X a c tz ini None [] [] replies = (out, tr', rest')"
    by (cases "runPages X a c tz ini None [] [] replies")
  from assms p have "status r = None"
    by (cases out) (auto simp: runSync_def split: sum.splits)
  with assms show ?thesis
    by (simp add: googleSync_def googleWithErrorHandler_def)
qed

text \<open>
  The Google loop over two pages, the token on the first: the second page leaves it in
  place.
\<close>

lemma runSync_keeps_token:
  "fst (runSync sampleExternals ''acct-1'' work ''UTC'' (Some ''sync-0'')
          [Inr tokenListPage, Inr lastListPage])
     = Returns \<lparr>changes = [], syncToken = Some ''sync-1'', status = None\<rparr>"
  by (simp add: runSync_def listPage_def keepToken_def sample_defs)

text \<open>
  C5 on the two providers. \<open>GoogleCalendarProvider.sync\<close>, called with a stored token
  and answered with one page that carries the next token, returns the change and the
  new token and no status at all, where the claim and the declared return type have
  \<open>incremental\<close>. \<open>MicrosoftCalendarProvider.sync\<close>, answered with a page that carries a
  delta link and a next link and then a page that carries neither, returns no token:
  the later page has cleared the one seen before.
\<close>

theorem sync_status_and_token_at_failing_inputs:
  "googleSync sampleExternals ''acct-1'' work (Some ''sync-0'') ''UTC'' [Inr onlyListPage]
     = (Returns \<lparr>changes = [Updated (parseGoogleCalendarEvent sampleExternals listedEvent
                                         ''acct-1'' work ''UTC'')],
                 syncToken = Some ''sync-1'', status = None\<rparr>,
        [EventsList \<lparr>listCalendarId = ''work'', listPageToken = None,
                     listSyncToken = Some ''sync-0''\<rparr>])
   \<and> fst (sync sampleExternals ''acct-1'' work None None None ''UTC''
            [Inr earlyTokenPage, Inr silentPage])
     = Returns \<lparr>changes = [], syncToken = None, status = Some Incremental\<rparr>
   \<and> lastSeen [earlyTokenPage, silentPage] = Some ''https://graph/delta-1''"
  by (simp add: googleSync_def googleWithErrorHandler_def runSync_def listPage_def listItem_def
      keepToken_def sync_def withErrorHandler_def deltaPage_def Let_def lastSeen_def seeToken_def
      onlyListPage_def listedEvent_def sample_defs)

lemma withErrorHandler_trace:
  "fst fn = Throws e \<Longrightarrow>
   snd (withErrorHandler X a operation fn ctx) =
     snd fn @ [ConsoleError
       \<lparr>logOperation = operation, logProvider = ''microsoft'', logAccountId = a,
        logContext = ctx, logErrorMessage = errMessage X e, logErrorName = errName X e,
        logErrorType = (if isNetworkError X e then Some ''network'' else None)\<rparr>]"
  by (simp add: withErrorHandler_def)

text \<open>
  C8, as the code has it: when the wrapped body throws, the handler throws too, the
  caught error wrapped once in a \<open>ProviderError\<close> with the operation and the context;
  the error thrown is the same whatever the account, and provider and account id are
  in the line it logs. When the body does not throw the handler returns what it returns.
\<close>

theorem withErrorHandler_rethrows:
  "(fst fn = Throws e \<longrightarrow>
      fst (withErrorHandler X a operation fn ctx) = Throws (ProviderError e operation ctx)
      \<and> fst (withErrorHandler X a' operation fn ctx) = fst (withErrorHandler X a operation fn ctx)
      \<and> snd (withErrorHandler X a operation fn ctx) =
          snd fn @ [ConsoleError
            \<lparr>logOperation = operation, logProvider = ''microsoft'', logAccountId = a,
             logContext = ctx, logErrorMessage = errMessage X e, logErrorName = errName X e,
             logErrorType = (if isNetworkError X e then Some ''network'' else None)\<rparr>])
   \<and> (fst (withErrorHandler X a operation fn ctx) = Returns v \<longleftrightarrow> fst fn = Returns v)"
  using withErrorHandler_Throws [of fn e X a operation ctx]
    withErrorHandler_Throws [of fn e X a' operation ctx]
    withErrorHandler_trace [of fn e X a operation ctx]
    withErrorHandler_Returns [of X a operation fn ctx v]
  by simp

theorem withErrorHandler_rethrows_witness:
  "fst (Throws notFound :: unit outcome, [] :: effect list) = Throws notFound
   \<and> withErrorHandler sampleExternals ''acct-1'' ''deleteEvent'' (Throws notFound :: unit outcome, [])
        (Some [(''eventId'', ''ev-1'')])
     = (Throws (ProviderError notFound ''deleteEvent'' (Some [(''eventId'', ''ev-1'')])),
        [ConsoleError \<lparr>logOperation = ''deleteEvent'', logProvider = ''microsoft'',
                       logAccountId = ''acct-1'', logContext = Some [(''eventId'', ''ev-1'')],
                       logErrorMessage = ''404: the event does not exist'',
                       logErrorName = ''NotFound'', logErrorType = None\<rparr>])"
proof -
  have f: "fst (Throws notFound :: unit outcome, [] :: effect list) = Throws notFound"
    by simp
  have n: "\<not> isNetworkError sampleExternals notFound"
    and m: "errMessage sampleExternals notFound = ''404: the event does not exist''"
    and nm: "errName sampleExternals notFound = ''NotFound''"
    by (simp_all add: isNetworkError_def notFound_def)
  from f withErrorHandler_rethrows [where fn = "(Throws notFound :: unit outcome, [])" and e = notFound
      and X = sampleExternals and a = "''acct-1''" and a' = "''acct-2''"
      and operation = "''deleteEvent''" and ctx = "Some [(''eventId'', ''ev-1'')]" and v = "()"]
  have "fst (withErrorHandler sampleExternals ''acct-1'' ''deleteEvent'' (Throws notFound :: unit outcome, [])
          (Some [(''eventId'', ''ev-1'')]))
        = Throws (ProviderError notFound ''deleteEvent'' (Some [(''eventId'', ''ev-1'')]))"
    and "snd (withErrorHandler sampleExternals ''acct-1'' ''deleteEvent'' (Throws notFound :: unit outcome, [])
          (Some [(''eventId'', ''ev-1'')]))
        = [ConsoleError \<lparr>logOperation = ''deleteEvent'', logProvider = ''microsoft'',
                       logAccountId = ''acct-1'', logContext = Some [(''eventId'', ''ev-1'')],
                       logErrorMessage = errMessage sampleExternals notFound,
                       logErrorName = errName sampleExternals notFound,
                       logErrorType = (if isNetworkError sampleExternals notFound then Some ''network'' else None)\<rparr>]"
    by simp_all
  with f n m nm show ?thesis
    by (simp add: prod_eq_iff)
qed

text \<open>
  C8 as stated fails: a failure of the fetch inside \<open>moveEvent\<close> passes two handlers
  and is wrapped twice, and the error \<open>sync\<close> throws for one account is the error it
  throws for another: it carries no account id.
\<close>

theorem moveEvent_double_wrap_counterexample:
  "fst (moveEvent sampleExternals ''acct-1'' work home ''ev-1'' True (Inl notFound))
     = Throws (ProviderError (ProviderError notFound ''event'' None) ''moveEvent'' None)
   \<and> fst (withErrorHandler sampleExternals ''acct-1'' ''sync'' (Throws notFound :: unit outcome, []) None)
     = Throws (ProviderError notFound ''sync'' None)
   \<and> fst (withErrorHandler sampleExternals ''acct-2'' ''sync'' (Throws notFound :: unit outcome, []) None)
     = Throws (ProviderError notFound ''sync'' None)"
  by (simp add: moveEvent_def event_def withErrorHandler_def)

lemma event_trace:
  "requests (snd (event X a c eventId tz reply)) =
     [\<lparr>meth = GET, url = Url (calendarPath X (cal_id c) @ ''/events/'' @ eventId),
       preferTimeZone = Some tz, orderby = None, top = None\<rparr>]"
  by (cases reply) (simp_all add: event_def withErrorHandler_def)

lemma event_Returns:
  "fst (event X a c eventId tz reply) = Returns fetched \<longleftrightarrow>
     (\<exists>ev. reply = Inr ev \<and> fetched = parseMicrosoftEvent X ev a c)"
  by (cases reply) (auto simp: event_def withErrorHandler_def)

text \<open>
  C9: \<open>moveEvent\<close> returns the event \<open>event\<close> fetched from the source calendar (in
  UTC) with \<open>calendarId\<close> set to the destination's id and nothing else changed, and
  the one request it sends is that GET.
\<close>

theorem moveEvent_placeholder:
  "(fst (event X a sourceCalendar eventId ''UTC'' reply) = Returns fetched \<longrightarrow>
      fst (moveEvent X a sourceCalendar destinationCalendar eventId sendUpdate reply)
        = Returns (fetched\<lparr>calendarId := cal_id destinationCalendar\<rparr>))
   \<and> (reply = Inr ev \<longrightarrow>
      fst (moveEvent X a sourceCalendar destinationCalendar eventId sendUpdate reply)
        = Returns ((parseMicrosoftEvent X ev a sourceCalendar)\<lparr>calendarId := cal_id destinationCalendar\<rparr>))
   \<and> requests (snd (moveEvent X a sourceCalendar destinationCalendar eventId sendUpdate reply))
       = [\<lparr>meth = GET, url = Url (calendarPath X (cal_id sourceCalendar) @ ''/events/'' @ eventId),
           preferTimeZone = Some ''UTC'', orderby = None, top = None\<rparr>]"
proof -
  obtain out tr where e: "event X a sourceCalendar eventId ''UTC'' reply = (out, tr)"
    by (cases "event X a sourceCalendar eventId ''UTC'' reply")
  have tr: "requests tr = [\<lparr>meth = GET, url = Url (calendarPath X (cal_id sourceCalendar) @ ''/events/'' @ eventId),
           preferTimeZone = Some ''UTC'', orderby = None, top = None\<rparr>]"
    using event_trace [of X a sourceCalendar eventId "''UTC''" reply] e by simp
  have req: "requests (es @ [ConsoleError l]) = requests es" for es l
    by (induction es rule: requests.induct) simp_all
  have 1: "fst (moveEvent X a sourceCalendar destinationCalendar eventId sendUpdate reply)
        = Returns (f\<lparr>calendarId := cal_id destinationCalendar\<rparr>)"
    if "fst (event X a sourceCalendar eventId ''UTC'' reply) = Returns f" for f
    using that e by (simp add: moveEvent_def withErrorHandler_def)
  have 2: "fst (moveEvent X a sourceCalendar destinationCalendar eventId sendUpdate reply)
        = Returns ((parseMicrosoftEvent X ev a sourceCalendar)\<lparr>calendarId := cal_id destinationCalendar\<rparr>)"
    if "reply = Inr ev"
    using that by (intro 1) (simp add: event_Returns)
  have 3: "requests (snd (moveEvent X a sourceCalendar destinationCalendar eventId sendUpdate reply))
       = [\<lparr>meth = GET, url = Url (calendarPath X (cal_id sourceCalendar) @ ''/events/'' @ eventId),
           preferTimeZone = Some ''UTC'', orderby = None, top = None\<rparr>]"
    using e tr by (cases out) (simp_all add: moveEvent_def withErrorHandler_def req)
  from 1 2 3 show ?thesis by blast
qed

theorem moveEvent_placeholder_witness:
  "fst (event sampleExternals ''acct-1'' work ''ev-2'' ''UTC'' (Inr plainItem))
     = Returns (parseMicrosoftEvent sampleExternals plainItem ''acct-1'' work)
   \<and> calendarId (parseMicrosoftEvent sampleExternals plainItem ''acct-1'' work) = ''work''
   \<and> fst (moveEvent sampleExternals ''acct-1'' work home ''ev-2'' True (Inr plainItem))
     = Returns ((parseMicrosoftEvent sampleExternals plainItem ''acct-1'' work)\<lparr>calendarId := ''home''\<rparr>)
   \<and> requests (snd (moveEvent sampleExternals ''acct-1'' work home ''ev-2'' True (Inr plainItem)))
     = [\<lparr>meth = GET, url = Url ''https://graph/me/calendars/work/events/ev-2'',
         preferTimeZone = Some ''UTC'', orderby = None, top = None\<rparr>]"
proof -
  have f: "fst (event sampleExternals ''acct-1'' work ''ev-2'' ''UTC'' (Inr plainItem))
     = Returns (parseMicrosoftEvent sampleExternals plainItem ''acct-1'' work)"
    by (simp add: event_def withErrorHandler_def)
  have c: "calendarId (parseMicrosoftEvent sampleExternals plainItem ''acct-1'' work) = ''work''"
    by (simp add: sample_defs)
  from f c moveEvent_placeholder [where X = sampleExternals and a = "''acct-1''"
      and sourceCalendar = work and destinationCalendar = home and eventId = "''ev-2''"
      and reply = "Inr plainItem" and ev = plainItem and sendUpdate = True
      and fetched = "parseMicrosoftEvent sampleExternals plainItem ''acct-1'' work"]
  show ?thesis
    by (simp add: sampleExternals_simps work_def home_def)
qed

text \<open>
  C10: a null item, an item without id and an item with an empty id add no change
  record; a removed item with an id adds one deleted record, which holds the item's id,
  the calendar's id, the account id twice and the provider \<open>microsoft\<close> (an
  \<open>event_identity\<close> has no other field); and the changes of a sync that returns are the
  records of the items of its pages, in order.
\<close>

theorem deltaItem_records:
  "deltaItem X a c None = []
   \<and> (\<not> truthy (ms_id it) \<longrightarrow> deltaItem X a c (Some it) = [])
   \<and> (ms_id it = Some i \<and> i \<noteq> [] \<and> ms_removed it = Some reason \<longrightarrow>
        deltaItem X a c (Some it) =
          [Deleted \<lparr>evId = i, calendarId = cal_id c, accountId = a,
                    providerId = Microsoft, providerAccountId = a\<rparr>])
   \<and> (fst (sync X a c ini tmin tmax tz replies) = Returns r \<longrightarrow>
        changes r = concat (map (\<lambda>page. concat (map (deltaItem X a c) (ms_value page))) (visited replies)))"
proof -
  have "\<not> truthy (ms_id it) \<Longrightarrow> deltaItem X a c (Some it) = []"
    by (cases "ms_id it") (simp_all add: deltaItem_def)
  moreover have "fst (sync X a c ini tmin tmax tz replies) = Returns r \<Longrightarrow>
        changes r = concat (map (\<lambda>page. concat (map (deltaItem X a c) (ms_value page))) (visited replies))"
    using sync_returns [of X a c ini tmin tmax tz replies r]
    by (simp add: deltaPage_def [abs_def])
  ultimately show ?thesis
    by (simp add: deltaItem_def)
qed

theorem deltaItem_records_witness:
  "\<not> truthy (ms_id namelessItem)
   \<and> deltaItem sampleExternals ''acct-1'' work (Some namelessItem) = []
   \<and> ms_id removedItem = Some ''ev-1'' \<and> ms_removed removedItem = Some ''deleted''
   \<and> deltaItem sampleExternals ''acct-1'' work (Some removedItem) =
        [Deleted \<lparr>evId = ''ev-1'', calendarId = ''work'', accountId = ''acct-1'',
                  providerId = Microsoft, providerAccountId = ''acct-1''\<rparr>]
   \<and> fst (sync sampleExternals ''acct-1'' work None None None ''UTC'' [Inr firstPage, Inr finalPage])
     = Returns \<lparr>changes =
                  [Deleted \<lparr>evId = ''ev-1'', calendarId = ''work'', accountId = ''acct-1'',
                            providerId = Microsoft, providerAccountId = ''acct-1''\<rparr>,
                   Updated (parseMicrosoftEvent sampleExternals plainItem ''acct-1'' work)],
                syncToken = Some ''https://graph/delta-2'', status = Some Incremental\<rparr>"
proof -
  have n: "\<not> truthy (ms_id namelessItem)"
    and i: "ms_id removedItem = Some ''ev-1''" and r: "ms_removed removedItem = Some ''deleted''"
    by (simp_all add: namelessItem_def removedItem_def)
  have run: "fst (sync sampleExternals ''acct-1'' work None None None ''UTC'' [Inr firstPage, Inr finalPage])
     = Returns \<lparr>changes =
                  [Deleted \<lparr>evId = ''ev-1'', calendarId = ''work'', accountId = ''acct-1'',
                            providerId = Microsoft, providerAccountId = ''acct-1''\<rparr>,
                   Updated (parseMicrosoftEvent sampleExternals plainItem ''acct-1'' work)],
                syncToken = Some ''https://graph/delta-2'', status = Some Incremental\<rparr>"
    by (simp add: sync_def withErrorHandler_def deltaPage_def deltaItem_def Let_def sample_defs)
  note t = deltaItem_records [where X = sampleExternals and a = "''acct-1''" and c = work
      and ini = None and tmin = None and tmax = None and tz = "''UTC''"
      and replies = "[Inr firstPage, Inr finalPage]" and reason = "''deleted''" and i = "''ev-1''"
      and r = "\<lparr>changes =
                  [Deleted \<lparr>evId = ''ev-1'', calendarId = ''work'', accountId = ''acct-1'',
                            providerId = Microsoft, providerAccountId = ''acct-1''\<rparr>,
                   Updated (parseMicrosoftEvent sampleExternals plainItem ''acct-1'' work)],
                syncToken = Some ''https://graph/delta-2'', status = Some Incremental\<rparr>"]
  from n t [where it = namelessItem]
  have a: "deltaItem sampleExternals ''acct-1'' work (Some namelessItem) = []"
    by blast
  from i r t [where it = removedItem]
  have b: "deltaItem sampleExternals ''acct-1'' work (Some removedItem) =
        [Deleted \<lparr>evId = ''ev-1'', calendarId = cal_id work, accountId = ''acct-1'',
                  providerId = Microsoft, providerAccountId = ''acct-1''\<rparr>]"
    by simp
  from n i r a b run show ?thesis
    by (simp add: work_def)
qed

end
